theory Spec2Isabelle
  imports
    Complex_Main
    "HOL-Library.Char_ord"
    "HOL-Library.List_Lexorder"
    "HOL-Library.Product_Lexorder"
    "HOL-Library.Multiset"
begin

section \<open>Data frames\<close>

text \<open>
  The collector and the web application pass pandas data frames around. A frame is
  modelled row-major: the column labels in order, and one list of cells per row, each as
  long as the label list (\<open>wf_frame\<close>). Labels are expected to be distinct, as the
  names of a query's fields are. The row index of pandas is left out: every
  column the code assigns is computed from the frame it is assigned to, so it carries the
  frame's own index and is stored position by position.

  A cell is a missing value (\<open>None\<close>/\<open>NaN\<close>), the missing timestamp \<open>NaT\<close>, a
  string, an integer, a float or a timestamp. Timestamps count nanoseconds since the
  epoch, as pandas does. Floats are modelled by exact rationals: rounding of binary
  floating point is not part of the model.
\<close>

datatype cell = CNull | CNaT | CStr string | CInt int | CFloat rat | CTime int

datatype error = KeyError | TypeError | AttributeError | ValueError

record dataframe =
  columns :: "string list"
  rows :: "cell list list"

definition wf_frame :: "dataframe \<Rightarrow> bool" where
  "wf_frame d = list_all (\<lambda>r. length r = length (columns d)) (rows d)"

text \<open>\<open>pd.DataFrame()\<close>: no columns, no rows.\<close>

definition DataFrame_empty :: dataframe where
  "DataFrame_empty = \<lparr>columns = [], rows = []\<rparr>"

text \<open>\<open>df.empty\<close>: one of the two axes has length zero.\<close>

definition df_empty :: "dataframe \<Rightarrow> bool" where
  "df_empty d = (columns d = [] \<or> rows d = [])"

text \<open>Position of a label among the columns (the first one, should a label repeat).\<close>

fun col_index :: "string \<Rightarrow> string list \<Rightarrow> nat option" where
  "col_index n [] = None"
| "col_index n (c # cs) = (if c = n then Some 0 else map_option Suc (col_index n cs))"

text \<open>\<open>df[name]\<close>: the cells of a column, or \<open>KeyError\<close>.\<close>

definition get_column :: "dataframe \<Rightarrow> string \<Rightarrow> error + cell list" where
  "get_column d n =
     (case col_index n (columns d) of
        None \<Rightarrow> Inl KeyError
      | Some i \<Rightarrow> Inr (map (\<lambda>r. r ! i) (rows d)))"

text \<open>
  \<open>df[name] = values\<close>: an existing column is overwritten in place, a new one is appended
  as the last column.
\<close>

definition set_column :: "dataframe \<Rightarrow> string \<Rightarrow> cell list \<Rightarrow> dataframe" where
  "set_column d n vs =
     (case col_index n (columns d) of
        Some i \<Rightarrow> d\<lparr>rows := map2 (\<lambda>r v. r[i := v]) (rows d) vs\<rparr>
      | None \<Rightarrow> d\<lparr>columns := columns d @ [n], rows := map2 (\<lambda>r v. r @ [v]) (rows d) vs\<rparr>)"

text \<open>The cells of a column for reading off results (no cells when the label is absent).\<close>

definition col_values :: "dataframe \<Rightarrow> string \<Rightarrow> cell list" where
  "col_values d n = (case get_column d n of Inl e \<Rightarrow> [] | Inr vs \<Rightarrow> vs)"

text \<open>Sequencing of steps that may raise: the first error ends the computation.\<close>

definition bind :: "error + 'a \<Rightarrow> ('a \<Rightarrow> error + 'b) \<Rightarrow> error + 'b" where
  "bind x f = (case x of Inl e \<Rightarrow> Inl e | Inr v \<Rightarrow> f v)"

section \<open>SankhyaAPIDataCollector.preprocess\_data\<close>

text \<open>The renaming dictionary of \<open>df.rename(columns={...})\<close>; other labels stay.\<close>

definition rename_col :: "string \<Rightarrow> string" where
  "rename_col n =
     (if n = ''case_id'' then ''case:concept:name''
      else if n = ''activity'' then ''concept:name''
      else if n = ''timestamp'' then ''time:timestamp''
      else if n = ''resource'' then ''org:resource''
      else n)"

definition rename_columns :: "dataframe \<Rightarrow> dataframe" where
  "rename_columns d = d\<lparr>columns := map rename_col (columns d)\<rparr>"

text \<open>
  \<open>df[name] = df[name].astype(str)\<close>. Python's \<open>str\<close> on a cell is a parameter
  \<open>str\<close> of the model; what matters here is that every cell of the column becomes a
  string.
\<close>

definition astype_str :: "(cell \<Rightarrow> string) \<Rightarrow> dataframe \<Rightarrow> string \<Rightarrow> error + dataframe" where
  "astype_str str d n =
     bind (get_column d n) (\<lambda>vs. Inr (set_column d n (map (\<lambda>v. CStr (str v)) vs)))"

fun is_str :: "cell \<Rightarrow> bool" where
  "is_str (CStr s) = True"
| "is_str _ = False"

fun str_val :: "cell \<Rightarrow> string" where
  "str_val (CStr s) = s"
| "str_val _ = []"

text \<open>A column has dtype \<open>datetime64\<close> when each of its cells is a timestamp or \<open>NaT\<close>.\<close>

fun is_datetime :: "cell \<Rightarrow> bool" where
  "is_datetime (CTime t) = True"
| "is_datetime CNaT = True"
| "is_datetime _ = False"

text \<open>Sort position of a \<open>datetime64\<close> cell: \<open>NaT\<close> after every timestamp (\<open>na_position='last'\<close>).\<close>

fun ts_ord :: "cell \<Rightarrow> bool \<times> int" where
  "ts_ord (CTime t) = (False, t)"
| "ts_ord _ = (True, 0)"

text \<open>
  \<open>df.sort_values([by1, by2])\<close> for a string column followed by a \<open>datetime64\<close> column,
  the case in which \<open>preprocess_data\<close> goes on: rows in ascending order of the pair
  (string, timestamp), strings compared lexicographically by character code, ties left in
  their order. A missing label raises \<open>KeyError\<close>, a label that names more than one
  column \<open>ValueError\<close> (the label is not unique). For a second column of another dtype
  the model raises here; in the source such a column raises at the latest at the \<open>.dt\<close>
  accessor of the next statement, and both exceptions reach the same handler.
\<close>

definition sort_values :: "dataframe \<Rightarrow> string \<Rightarrow> string \<Rightarrow> error + dataframe" where
  "sort_values d by1 by2 =
     (case col_index by1 (columns d) of
        None \<Rightarrow> Inl KeyError
      | Some i \<Rightarrow>
          (case col_index by2 (columns d) of
             None \<Rightarrow> Inl KeyError
           | Some j \<Rightarrow>
               if 1 < count_list (columns d) by1 \<or> 1 < count_list (columns d) by2
               then Inl ValueError
               else if list_all (\<lambda>r. is_str (r ! i) \<and> is_datetime (r ! j)) (rows d)
               then Inr (d\<lparr>rows := sort_key (\<lambda>r. (str_val (r ! i), ts_ord (r ! j))) (rows d)\<rparr>)
               else Inl TypeError))"

text \<open>
  \<open>groupby(key)[col].diff()\<close> on a \<open>datetime64\<close> column, in one pass over the rows:
  \<open>prev\<close> remembers the latest cell seen for each key. The result is the difference to
  that cell in nanoseconds, or \<open>None\<close> (\<open>NaT\<close>) for the first row of a group and when
  one of the two cells is \<open>NaT\<close>.
\<close>

fun td_diff :: "cell \<Rightarrow> cell \<Rightarrow> int option" where
  "td_diff (CTime p) (CTime t) = Some (t - p)"
| "td_diff _ _ = None"

fun groupby_diff :: "(cell \<Rightarrow> cell option) \<Rightarrow> (cell \<times> cell) list \<Rightarrow> int option list" where
  "groupby_diff prev [] = []"
| "groupby_diff prev ((k, t) # xs) =
     (case prev k of None \<Rightarrow> None | Some p \<Rightarrow> td_diff p t) # groupby_diff (prev(k \<mapsto> t)) xs"

text \<open>\<open>.dt.total_seconds()\<close> and \<open>.fillna(0)\<close>.\<close>

definition total_seconds :: "int option \<Rightarrow> rat option" where
  "total_seconds d = map_option (\<lambda>ns. of_int ns / 1000000000) d"

definition fillna0 :: "rat option \<Rightarrow> rat" where
  "fillna0 v = (case v of None \<Rightarrow> 0 | Some x \<Rightarrow> x)"

text \<open>
  The whole right-hand side of the \<open>duration_seconds\<close> assignment. The \<open>.dt\<close>
  accessor raises \<open>AttributeError\<close> unless the differences are time deltas, that is,
  unless the column is \<open>datetime64\<close>.
\<close>

definition duration_seconds :: "dataframe \<Rightarrow> string \<Rightarrow> string \<Rightarrow> error + cell list" where
  "duration_seconds d key col =
     bind (get_column d key) (\<lambda>ks.
     bind (get_column d col) (\<lambda>ts.
       if list_all is_datetime ts
       then Inr (map (\<lambda>v. CFloat (fillna0 (total_seconds v))) (groupby_diff Map.empty (zip ks ts)))
       else Inl AttributeError))"

text \<open>\<open>groupby(key).cumcount()\<close>: how many earlier rows carry the same key.\<close>

fun cumcount :: "cell list \<Rightarrow> cell list \<Rightarrow> nat list" where
  "cumcount seen [] = []"
| "cumcount seen (k # ks) = count_list seen k # cumcount (k # seen) ks"

definition activity_sequence :: "dataframe \<Rightarrow> string \<Rightarrow> error + cell list" where
  "activity_sequence d key =
     bind (get_column d key) (\<lambda>ks. Inr (map (\<lambda>n. CInt (int n + 1)) (cumcount [] ks)))"

text \<open>The body of the \<open>try\<close> block after the emptiness test.\<close>

definition preprocess_steps :: "(cell \<Rightarrow> string) \<Rightarrow> dataframe \<Rightarrow> error + dataframe" where
  "preprocess_steps str df =
     bind (astype_str str (rename_columns df) ''case:concept:name'') (\<lambda>d1.
     bind (astype_str str d1 ''concept:name'') (\<lambda>d2.
     bind (sort_values d2 ''case:concept:name'' ''time:timestamp'') (\<lambda>d3.
     bind (duration_seconds d3 ''case:concept:name'' ''time:timestamp'') (\<lambda>dur.
     bind (activity_sequence (set_column d3 ''duration_seconds'' dur) ''case:concept:name'') (\<lambda>sq.
       Inr (set_column (set_column d3 ''duration_seconds'' dur) ''activity_sequence'' sq))))))"

text \<open>
  \<open>preprocess_data\<close>: an empty frame is returned as it is; any exception of the body is
  logged and the caller's frame is returned unchanged.
\<close>

definition preprocess_data :: "(cell \<Rightarrow> string) \<Rightarrow> dataframe \<Rightarrow> dataframe" where
  "preprocess_data str df =
     (if df_empty df then df
      else case preprocess_steps str df of Inl e \<Rightarrow> df | Inr d \<Rightarrow> d)"

text \<open>
  The frames \<open>preprocess_data\<close> is meant for: rectangular and not empty, with distinct
  labels once renamed, with the four columns the collector's query selects, not yet
  carrying the two computed columns, and with a \<open>datetime64\<close> timestamp column (what
  \<open>collect_process_events\<close> produces with \<open>pd.to_datetime\<close>).
\<close>

definition event_frame :: "dataframe \<Rightarrow> bool" where
  "event_frame df =
     (wf_frame df \<and> \<not> df_empty df \<and> distinct (map rename_col (columns df)) \<and>
      ''case_id'' \<in> set (columns df) \<and> ''activity'' \<in> set (columns df) \<and>
      ''timestamp'' \<in> set (columns df) \<and> ''resource'' \<in> set (columns df) \<and>
      ''duration_seconds'' \<notin> set (columns df) \<and> ''activity_sequence'' \<notin> set (columns df) \<and>
      list_all is_datetime (col_values df ''timestamp''))"

text \<open>
  The frames on which no step of \<open>preprocess_data\<close> raises: after renaming there is
  an activity column, exactly one case column and exactly one timestamp column, and the
  timestamp column has dtype \<open>datetime64\<close>.
\<close>

definition preprocessable :: "dataframe \<Rightarrow> bool" where
  "preprocessable df =
     (let cols = map rename_col (columns df) in
        ''case:concept:name'' \<in> set cols \<and> ''concept:name'' \<in> set cols \<and>
        ''time:timestamp'' \<in> set cols \<and>
        count_list cols ''case:concept:name'' \<le> 1 \<and> count_list cols ''time:timestamp'' \<le> 1 \<and>
        list_all is_datetime (col_values (rename_columns df) ''time:timestamp''))"

text \<open>
  A row with the cells of the case and activity columns replaced by their string
  rendering, every other cell kept: what \<open>astype(str)\<close> does to the values of a row.
\<close>

definition str_cast :: "(cell \<Rightarrow> string) \<Rightarrow> string list \<Rightarrow> cell list \<Rightarrow> cell list" where
  "str_cast str cols r =
     map2 (\<lambda>n v. if n = ''case_id'' \<or> n = ''activity'' then CStr (str v) else v) cols r"

text \<open>
  An instance of the rendering parameter for concrete evaluations: Python's \<open>str\<close> on
  strings, integers and \<open>None\<close>. Cells of the remaining kinds do not occur in the case
  and activity columns of the examples below and are rendered by their type name only.
\<close>

fun digits :: "nat \<Rightarrow> string" where
  "digits n = (if n < 10 then [char_of (48 + n)] else digits (n div 10) @ [char_of (48 + n mod 10)])"

declare digits.simps [simp del]

fun py_str :: "cell \<Rightarrow> string" where
  "py_str (CStr s) = s"
| "py_str (CInt n) = (if n < 0 then CHR ''-'' # digits (nat (- n)) else digits (nat n))"
| "py_str CNull = ''None''"
| "py_str CNaT = ''NaT''"
| "py_str (CFloat r) = ''float''"
| "py_str (CTime t) = ''Timestamp''"

text \<open>A small event log: two cases, one of them with three events, the last of which has no timestamp.\<close>

definition example_log :: dataframe where
  "example_log = \<lparr>columns = [''case_id'', ''activity'', ''timestamp'', ''resource''],
     rows = [[CInt 7, CStr ''b'', CTime 5000000000, CStr ''r''],
             [CInt 10, CStr ''a'', CTime 1000000000, CNull],
             [CInt 7, CStr ''a'', CTime 2000000000, CStr ''r''],
             [CInt 7, CStr ''c'', CNaT, CStr ''r'']]\<rparr>"

text \<open>
  Two logs the preprocessing gives up on: one with integers for timestamps, one without
  activity column.
\<close>

definition int_ts_log :: dataframe where
  "int_ts_log = \<lparr>columns = [''case_id'', ''activity'', ''timestamp'', ''resource''],
     rows = [[CStr ''b'', CStr ''y'', CInt 5, CStr ''r''],
             [CStr ''a'', CStr ''x'', CInt 1, CStr ''r'']]\<rparr>"

definition no_activity_log :: dataframe where
  "no_activity_log = \<lparr>columns = [''case_id'', ''timestamp'', ''resource''],
     rows = [[CStr ''a'', CTime 1000000000, CStr ''r''],
             [CStr ''a'', CTime 3000000000, CStr ''r'']]\<rparr>"

section \<open>JSON values and Python dictionaries\<close>

text \<open>
  What \<open>response.json()\<close> returns and what the configuration dictionary holds: a JSON
  value as Python sees it, \<open>JNull\<close> being \<open>None\<close>. A JSON object is a dictionary, kept
  as the list of its entries; \<open>map_of\<close> looks a key up.
\<close>

datatype json =
  JNull | JBool bool | JNum rat | JStr string | JArr "json list" | JObj "(string \<times> json) list"

text \<open>
  \<open>value.get(key)\<close> and \<open>value.get(key, default)\<close>: on a dictionary, the entry or the
  default (\<open>None\<close> for the short form); on any other value Python raises
  \<open>AttributeError\<close>, there being no such method.
\<close>

fun py_get_default :: "json \<Rightarrow> string \<Rightarrow> json \<Rightarrow> error + json" where
  "py_get_default (JObj kv) k d = Inr (case map_of kv k of None \<Rightarrow> d | Some v \<Rightarrow> v)"
| "py_get_default _ k d = Inl AttributeError"

definition py_get :: "json \<Rightarrow> string \<Rightarrow> error + json" where
  "py_get v k = py_get_default v k JNull"

text \<open>\<open>bool(value)\<close>: \<open>None\<close>, \<open>False\<close>, zero and the empty string, list and dictionary are false.\<close>

fun py_bool :: "json \<Rightarrow> bool" where
  "py_bool JNull = False"
| "py_bool (JBool b) = b"
| "py_bool (JNum r) = (r \<noteq> 0)"
| "py_bool (JStr s) = (s \<noteq> [])"
| "py_bool (JArr xs) = (xs \<noteq> [])"
| "py_bool (JObj kv) = (kv \<noteq> [])"

section \<open>SankhyaAPIDataCollector.authenticate\<close>

text \<open>
  The outcome of \<open>requests.post\<close>: the call raises (no connection, time-out, bad URL), or
  there is a response with a status code and a body. The body is given as
  \<open>response.json()\<close> sees it: \<open>None\<close> when that call raises because the body is not
  JSON, the decoded value otherwise.
\<close>

datatype http_reply = PostRaises | Reply nat "json option"

text \<open>
  The collector object. The credentials only go into the request; \<open>session_id\<close> is the
  field \<open>authenticate\<close> writes (\<open>JNull\<close> is Python's \<open>None\<close>, its initial value).
\<close>

record collector =
  base_url :: string
  app_key :: string
  sankhya_id :: string
  password :: string
  token :: "string option"
  session_id :: json

text \<open>
  \<open>authenticate\<close>, given the outcome of its login request. It returns the boolean and the
  collector as the call leaves it. Every exception raised inside the \<open>try\<close> block ends
  in the handler, which logs and returns \<open>False\<close>: the failing \<open>.get\<close> on a body or a
  \<open>responseBody\<close> that is no dictionary is such an exception, and it is raised before
  \<open>session_id\<close> is assigned.
\<close>

definition authenticate :: "http_reply \<Rightarrow> collector \<Rightarrow> bool \<times> collector" where
  "authenticate reply c =
     (case reply of
        PostRaises \<Rightarrow> (False, c)
      | Reply code body \<Rightarrow>
          if code = 200 then
            (case body of
               None \<Rightarrow> (False, c)
             | Some result \<Rightarrow>
                 (case py_get result ''status'' of
                    Inl e \<Rightarrow> (False, c)
                  | Inr st \<Rightarrow>
                      if st = JStr ''1'' then
                        (case bind (py_get_default result ''responseBody'' (JObj []))
                                (\<lambda>rb. py_get rb ''jsessionid'') of
                           Inl e \<Rightarrow> (False, c)
                         | Inr sid \<Rightarrow> (True, c\<lparr>session_id := sid\<rparr>))
                      else (False, c)))
          else (False, c))"

text \<open>When the login succeeds: the conditions the code tests, one after the other.\<close>

definition login_accepted :: "http_reply \<Rightarrow> json \<Rightarrow> bool" where
  "login_accepted reply sid =
     (\<exists>kv. reply = Reply 200 (Some (JObj kv)) \<and> map_of kv ''status'' = Some (JStr ''1'') \<and>
        (case map_of kv ''responseBody'' of
           None \<Rightarrow> sid = JNull
         | Some (JObj rb) \<Rightarrow> sid = (case map_of rb ''jsessionid'' of None \<Rightarrow> JNull | Some v \<Rightarrow> v)
         | Some _ \<Rightarrow> False))"

text \<open>A collector, a login reply of the gateway, and a reply whose \<open>responseBody\<close> is \<open>null\<close>.\<close>

definition example_collector :: collector where
  "example_collector =
     \<lparr>base_url = ''https://api.sankhya.com.br'', app_key = ''key'', sankhya_id = ''user@example.com'',
      password = ''secret'', token = Some ''token'', session_id = JNull\<rparr>"

definition login_ok_reply :: http_reply where
  "login_ok_reply =
     Reply 200 (Some (JObj [(''status'', JStr ''1''),
                            (''responseBody'', JObj [(''jsessionid'', JStr ''abc'')])]))"

definition login_null_body_reply :: http_reply where
  "login_null_body_reply =
     Reply 200 (Some (JObj [(''status'', JStr ''1''), (''responseBody'', JNull)]))"

section \<open>The web application: configuration endpoint\<close>

text \<open>
  \<open>SANKHYA_CONFIG\<close> is a dictionary from keys to values: strings from the environment at
  start-up, whatever JSON value a POST to \<open>/api/sankhya-config\<close> stored later. The GET
  branch of \<open>sankhya_config\<close> builds the response object from it.
\<close>

type_synonym config = "string \<Rightarrow> json option"

definition cfg_get :: "config \<Rightarrow> string \<Rightarrow> json \<Rightarrow> json" where
  "cfg_get cfg k d = (case cfg k of None \<Rightarrow> d | Some v \<Rightarrow> v)"

definition sankhya_config_get :: "config \<Rightarrow> (string \<times> json) list" where
  "sankhya_config_get cfg =
     [(''base_url'', cfg_get cfg ''base_url'' (JStr '''')),
      (''has_app_key'', JBool (py_bool (cfg_get cfg ''app_key'' JNull))),
      (''has_sankhya_id'', JBool (py_bool (cfg_get cfg ''sankhya_id'' JNull))),
      (''has_password'', JBool (py_bool (cfg_get cfg ''password'' JNull))),
      (''has_token'', JBool (py_bool (cfg_get cfg ''token'' JNull)))]"

definition credential_keys :: "string list" where
  "credential_keys = [''app_key'', ''sankhya_id'', ''password'', ''token'']"

text \<open>
  Two configurations that agree on everything but the values of the credentials, which are
  set (true as a Python condition) in both.
\<close>

definition differ_in_credentials_only :: "config \<Rightarrow> config \<Rightarrow> bool" where
  "differ_in_credentials_only c1 c2 =
     ((\<forall>k. k \<notin> set credential_keys \<longrightarrow> c1 k = c2 k) \<and>
      (\<forall>k \<in> set credential_keys. py_bool (cfg_get c1 k JNull) \<and> py_bool (cfg_get c2 k JNull)))"

definition example_config :: "string \<Rightarrow> string \<Rightarrow> config" where
  "example_config key pw =
     [''base_url'' \<mapsto> JStr ''https://api.sankhya.com.br'', ''app_key'' \<mapsto> JStr key,
      ''sankhya_id'' \<mapsto> JStr ''user@example.com'', ''password'' \<mapsto> JStr pw,
      ''token'' \<mapsto> JStr ''t'']"

section \<open>The web application: routes\<close>

text \<open>
  The URL map of \<open>app\<close>. \<open>Flask(__name__)\<close> creates the application with its default
  static folder, which registers the rule \<open>/static/<path:filename>\<close> (endpoint
  \<open>static\<close>) before any view is declared; the application relies on it for the model
  image it reports as \<open>/static/sankhya_process_model_....png\<close>. Each \<open>@app.route\<close>
  then adds one rule, in source order. For a view, \<open>serves\<close> records what its
  \<open>return\<close> statements build: \<open>jsonify(...)\<close> or \<open>render_template(...)\<close>. The
  methods are the declared ones (Flask adds \<open>HEAD\<close> and \<open>OPTIONS\<close> on its own).
\<close>

datatype http_method = GET | POST

datatype content = Json | Html | StaticFile

record route =
  rule :: string
  methods :: "http_method list"
  endpoint :: string
  serves :: content

definition flask_default_routes :: "route list" where
  "flask_default_routes =
     [\<lparr>rule = ''/static/<path:filename>'', methods = [GET], endpoint = ''static'',
       serves = StaticFile\<rparr>]"

definition view_routes :: "route list" where
  "view_routes =
     [\<lparr>rule = ''/'', methods = [GET], endpoint = ''index'', serves = Html\<rparr>,
      \<lparr>rule = ''/api/test-connection'', methods = [POST],
       endpoint = ''test_sankhya_connection'', serves = Json\<rparr>,
      \<lparr>rule = ''/api/analyze-sankhya'', methods = [POST],
       endpoint = ''analyze_sankhya_processes'', serves = Json\<rparr>,
      \<lparr>rule = ''/api/sankhya-config'', methods = [GET, POST],
       endpoint = ''sankhya_config'', serves = Json\<rparr>,
      \<lparr>rule = ''/api/database-setup'', methods = [GET],
       endpoint = ''database_setup_info'', serves = Json\<rparr>]"

definition url_map :: "route list" where
  "url_map = flask_default_routes @ view_routes"

section \<open>Conformance figures of the analysis response\<close>

text \<open>
  An aligned trace, as far as this code reads it: the value under its \<open>fitness\<close> key, or
  \<open>None\<close> when the lookup \<open>trace["fitness"]\<close> raises (no such key, or no alignment was
  found and the entry is \<open>None\<close>). Fitness values are floats, modelled by rationals.
\<close>

type_synonym trace = "rat option"

text \<open>\<open>[trace["fitness"] for trace in aligned_traces]\<close>: the first failing lookup raises.\<close>

fun fitness_values :: "trace list \<Rightarrow> error + rat list" where
  "fitness_values [] = Inr []"
| "fitness_values (None # ts) = Inl KeyError"
| "fitness_values (Some f # ts) = bind (fitness_values ts) (\<lambda>fs. Inr (f # fs))"

text \<open>
  \<open>ProcessAnalyzer.analyze_conformance\<close> passes the alignments of the library on; its
  progress message counts the perfect ones, so a trace without fitness raises here already.
\<close>

definition analyze_conformance :: "trace list \<Rightarrow> error + trace list" where
  "analyze_conformance aligned = bind (fitness_values aligned) (\<lambda>fs. Inr aligned)"



section \<open>SankhyaAPIDataCollector.execute\_query and collect\_process\_events\<close>

text \<open>
  The reply to the query request, typed by what the collector reads from it. The JSON
  body is an envelope with a \<open>status\<close> and a \<open>responseBody\<close>; the response body of a
  query is a dictionary that may have a \<open>fields\<close> entry (a list of field descriptions,
  each a dictionary of strings that may have a \<open>name\<close>) and a \<open>rows\<close> entry (a list of
  rows, each a list of scalars). \<open>QueryReply code None\<close> is a body that is not a JSON
  object: \<open>response.json()\<close> or the first \<open>.get\<close> raises.
\<close>

type_synonym field = "(string \<times> string) list"

record query_result =
  result_fields :: "field list option"
  result_rows :: "cell list list option"

text \<open>A Python value that is \<open>None\<close>, a dictionary of this shape, or something else.\<close>

datatype py_result = PyNone | PyOther | PyDict query_result

record query_envelope =
  status :: json
  responseBody :: "py_result option"

datatype query_reply = QueryRaises | QueryReply nat "query_envelope option"

text \<open>
  \<open>execute_query\<close>, given the outcome of its request: the response body (an empty
  dictionary when the envelope has none) for status 200 and \<open>status\<close> \<open>"1"\<close>, and
  \<open>None\<close> otherwise, also when an exception is caught.
\<close>

definition execute_query :: "query_reply \<Rightarrow> py_result" where
  "execute_query reply =
     (case reply of
        QueryRaises \<Rightarrow> PyNone
      | QueryReply code body \<Rightarrow>
          if code = 200 then
            (case body of
               None \<Rightarrow> PyNone
             | Some result \<Rightarrow>
                 if status result = JStr ''1'' then
                   (case responseBody result of
                      None \<Rightarrow> PyDict \<lparr>result_fields = None, result_rows = None\<rparr>
                    | Some b \<Rightarrow> b)
                 else PyNone)
          else PyNone)"

text \<open>\<open>[field["name"] for field in ...]\<close>: a description without name raises \<open>KeyError\<close>.\<close>

fun field_names :: "field list \<Rightarrow> error + string list" where
  "field_names [] = Inr []"
| "field_names (f # fs) =
     (case map_of f ''name'' of
        None \<Rightarrow> Inl KeyError
      | Some n \<Rightarrow> bind (field_names fs) (\<lambda>ns. Inr (n # ns)))"

text \<open>
  \<open>pd.DataFrame(rows, columns=columns)\<close> for a list of lists. Without rows the frame has
  the given columns and no row. Otherwise pandas lays the rows out as wide as the longest
  of them, shorter ones filled up with \<open>None\<close>, and raises \<open>ValueError\<close> unless that
  width is the number of columns passed.
\<close>

definition row_width :: "cell list list \<Rightarrow> nat" where
  "row_width rs = foldr (\<lambda>r w. max (length r) w) rs 0"

definition pad :: "nat \<Rightarrow> cell list \<Rightarrow> cell list" where
  "pad n r = r @ replicate (n - length r) CNull"

definition DataFrame :: "cell list list \<Rightarrow> string list \<Rightarrow> error + dataframe" where
  "DataFrame rs cols =
     (if rs = [] then Inr \<lparr>columns = cols, rows = []\<rparr>
      else if row_width rs = length cols
      then Inr \<lparr>columns = cols, rows = map (pad (length cols)) rs\<rparr>
      else Inl ValueError)"

text \<open>
  \<open>pd.to_datetime\<close> on a column is a parameter \<open>to_datetime\<close> of the model: the parsing
  of text and numbers belongs to pandas. It yields \<open>None\<close> when pandas raises, and
  otherwise one entry per cell, a timestamp in nanoseconds or \<open>None\<close> for \<open>NaT\<close>.
\<close>

fun ts_cell :: "int option \<Rightarrow> cell" where
  "ts_cell None = CNaT"
| "ts_cell (Some t) = CTime t"

text \<open>
  The conversion of the \<open>timestamp\<close> column, when there is one. With the label
  repeated, \<open>df['timestamp']\<close> is a frame, which \<open>pd.to_datetime\<close> refuses.
\<close>

definition convert_timestamp ::
    "(cell list \<Rightarrow> int option list option) \<Rightarrow> dataframe \<Rightarrow> error + dataframe" where
  "convert_timestamp to_datetime d =
     (if ''timestamp'' \<in> set (columns d) then
        if 1 < count_list (columns d) ''timestamp'' then Inl ValueError
        else (case to_datetime (col_values d ''timestamp'') of
                None \<Rightarrow> Inl ValueError
              | Some ts \<Rightarrow> Inr (set_column d ''timestamp'' (map ts_cell ts)))
      else Inr d)"

text \<open>
  The \<open>try\<close> block of \<open>collect_process_events\<close> on the result of the query. The test
  \<open>result and "rows" in result\<close> holds for a dictionary with a \<open>rows\<close> entry. A result
  that is no dictionary never yields data: it is false, or it has no \<open>rows\<close>, or one of
  \<open>in\<close> and \<open>.get\<close> raises. After the conversion the log message reads
  \<open>df['case_id']\<close>, which raises \<open>KeyError\<close> without such a column.
\<close>

definition collect_steps ::
    "(cell list \<Rightarrow> int option list option) \<Rightarrow> py_result \<Rightarrow> error + dataframe" where
  "collect_steps to_datetime result =
     (case result of
        PyNone \<Rightarrow> Inr DataFrame_empty
      | PyOther \<Rightarrow> Inr DataFrame_empty
      | PyDict r \<Rightarrow>
          (case result_rows r of
             None \<Rightarrow> Inr DataFrame_empty
           | Some rs \<Rightarrow>
               bind (field_names (case result_fields r of None \<Rightarrow> [] | Some fs \<Rightarrow> fs)) (\<lambda>cols.
               bind (DataFrame rs cols) (\<lambda>df.
               bind (convert_timestamp to_datetime df) (\<lambda>df'.
               bind (get_column df' ''case_id'') (\<lambda>ids. Inr df'))))))"

text \<open>\<open>collect_process_events\<close>: the handler turns every exception into an empty frame.\<close>

definition collect_process_events ::
    "(cell list \<Rightarrow> int option list option) \<Rightarrow> query_reply \<Rightarrow> dataframe" where
  "collect_process_events to_datetime reply =
     (case collect_steps to_datetime (execute_query reply) of
        Inl e \<Rightarrow> DataFrame_empty
      | Inr d \<Rightarrow> d)"

text \<open>
  An instance of the conversion parameter for concrete evaluations, on columns that hold
  timestamps, missing values and integers (nanoseconds since the epoch, the default unit
  of pandas). It parses no text: a string makes it raise.
\<close>

fun ns_of_cell :: "cell \<Rightarrow> int option option" where
  "ns_of_cell (CTime t) = Some (Some t)"
| "ns_of_cell (CInt n) = Some (Some n)"
| "ns_of_cell CNaT = Some None"
| "ns_of_cell CNull = Some None"
| "ns_of_cell _ = None"

fun to_datetime_ns :: "cell list \<Rightarrow> int option list option" where
  "to_datetime_ns [] = Some []"
| "to_datetime_ns (c # cs) =
     (case ns_of_cell c of
        None \<Rightarrow> None
      | Some v \<Rightarrow> map_option ((#) v) (to_datetime_ns cs))"

text \<open>
  Two replies to the query: one row of three fields, and the same fields with a row of
  four cells.
\<close>

definition three_fields :: "field list" where
  "three_fields = [[(''name'', ''case_id'')], [(''name'', ''activity'')], [(''name'', ''timestamp'')]]"

definition query_ok_reply :: query_reply where
  "query_ok_reply =
     QueryReply 200 (Some \<lparr>status = JStr ''1'',
       responseBody = Some (PyDict \<lparr>result_fields = Some three_fields,
         result_rows = Some [[CInt 7, CStr ''a'', CInt 2000000000]]\<rparr>)\<rparr>)"

definition query_wide_row_reply :: query_reply where
  "query_wide_row_reply =
     QueryReply 200 (Some \<lparr>status = JStr ''1'',
       responseBody = Some (PyDict \<lparr>result_fields = Some three_fields,
         result_rows = Some [[CInt 7, CStr ''a'', CInt 2000000000, CStr ''r'']]\<rparr>)\<rparr>)"

section \<open>generate\_sankhya\_suggestions\<close>

text \<open>
  A suggestion is one of the messages the function formats. The model keeps the message
  and the values put into it, not the formatted text.
\<close>

datatype suggestion =
    NoData
  | MostFrequent cell nat
  | Delay rat
  | LowConformance rat
  | HighConformance rat
  | CategoryFocus cell rat
  | BusiestResource cell nat
  | PeakHour int
  | Monitoring
  | Dashboards
  | Targets
  | GenerationError

fun is_null :: "cell \<Rightarrow> bool" where
  "is_null CNull = True"
| "is_null CNaT = True"
| "is_null _ = False"

text \<open>
  \<open>Series.value_counts()\<close>: the distinct values that are not missing, each with the
  number of its occurrences, most frequent first. Values of equal count are listed in
  the order of their first occurrence; pandas fixes no order for them.
\<close>

definition value_counts :: "cell list \<Rightarrow> (cell \<times> nat) list" where
  "value_counts xs =
     (let vs = filter (\<lambda>x. \<not> is_null x) xs
      in sort_key (\<lambda>p. - int (snd p)) (map (\<lambda>v. (v, count_list vs v)) (rev (remdups (rev vs)))))"

text \<open>The truth value of a label in \<open>if most_frequent:\<close>.\<close>

fun py_truth :: "cell \<Rightarrow> bool" where
  "py_truth CNull = False"
| "py_truth CNaT = False"
| "py_truth (CStr s) = (s \<noteq> [])"
| "py_truth (CInt n) = (n \<noteq> 0)"
| "py_truth (CFloat r) = (r \<noteq> 0)"
| "py_truth (CTime t) = True"

definition frequent_activity :: "dataframe \<Rightarrow> suggestion list" where
  "frequent_activity df =
     (if ''concept:name'' \<in> set (columns df) then
        (case value_counts (col_values df ''concept:name'') of
           [] \<Rightarrow> []
         | (a, n) # rest \<Rightarrow> if py_truth a then [MostFrequent a n] else [])
      else [])"

text \<open>
  \<open>Series.mean()\<close>: the mean of the numbers of the column, missing values skipped,
  \<open>NaN\<close> (\<open>None\<close> here) when there is no number. A column with strings or timestamps
  raises, in \<open>mean\<close> or in the comparison of its result with 3600.
\<close>

fun num_values :: "cell list \<Rightarrow> error + rat list" where
  "num_values [] = Inr []"
| "num_values (CNull # cs) = num_values cs"
| "num_values (CInt n # cs) = bind (num_values cs) (\<lambda>ns. Inr (of_int n # ns))"
| "num_values (CFloat r # cs) = bind (num_values cs) (\<lambda>ns. Inr (r # ns))"
| "num_values (c # cs) = Inl TypeError"

definition column_mean :: "cell list \<Rightarrow> error + rat option" where
  "column_mean cs =
     bind (num_values cs) (\<lambda>ns.
       Inr (if ns = [] then None else Some (sum_list ns / of_nat (length ns))))"

definition delay_suggestion :: "dataframe \<Rightarrow> error + suggestion list" where
  "delay_suggestion df =
     (if ''duration_seconds'' \<in> set (columns df) then
        bind (column_mean (col_values df ''duration_seconds'')) (\<lambda>m.
          Inr (case m of
                 None \<Rightarrow> []
               | Some avg_duration \<Rightarrow>
                   if avg_duration > 3600 then [Delay (avg_duration / 3600)] else []))
      else Inr [])"

definition conformance_suggestion :: "trace list \<Rightarrow> error + suggestion list" where
  "conformance_suggestion aligned_traces =
     (if aligned_traces \<noteq> [] then
        bind (fitness_values aligned_traces) (\<lambda>fitness_scores.
          let avg_fitness = sum_list fitness_scores / of_nat (length fitness_scores)
          in Inr (if avg_fitness < 8 / 10 then [LowConformance avg_fitness]
                  else if avg_fitness > 95 / 100 then [HighConformance avg_fitness]
                  else []))
      else Inr [])"

definition category_suggestions :: "dataframe \<Rightarrow> suggestion list" where
  "category_suggestions df =
     (if ''process_category'' \<in> set (columns df) then
        concat (map (\<lambda>(category, count).
                  if of_nat count > of_nat (length (rows df)) * (5 / 10 :: rat)
                  then [CategoryFocus category (of_nat count / of_nat (length (rows df)))]
                  else [])
               (value_counts (col_values df ''process_category'')))
      else [])"

definition resource_suggestion :: "dataframe \<Rightarrow> suggestion list" where
  "resource_suggestion df =
     (if ''org:resource'' \<in> set (columns df) then
        (case value_counts (col_values df ''org:resource'') of
           [] \<Rightarrow> []
         | (busiest_resource, n) # rest \<Rightarrow> [BusiestResource busiest_resource n])
      else [])"

text \<open>
  The hour of a timestamp, and \<open>value_counts().sort_index().idxmax()\<close> on the hours:
  the earliest hour among those that occur most often. Without any hour (every timestamp
  \<open>NaT\<close>) \<open>idxmax\<close> raises \<open>ValueError\<close>.
\<close>

definition hour_of :: "int \<Rightarrow> int" where
  "hour_of t = (t div 3600000000000) mod 24"

fun hours :: "int option list \<Rightarrow> int list" where
  "hours [] = []"
| "hours (None # ts) = hours ts"
| "hours (Some t # ts) = hour_of t # hours ts"

fun first_max :: "int \<times> nat \<Rightarrow> (int \<times> nat) list \<Rightarrow> int \<times> nat" where
  "first_max b [] = b"
| "first_max b (x # xs) = first_max (if snd b < snd x then x else b) xs"

definition idxmax_hour :: "int list \<Rightarrow> error + int" where
  "idxmax_hour hs =
     (case map (\<lambda>h. (h, count_list hs h)) (sort (remdups hs)) of
        [] \<Rightarrow> Inl ValueError
      | x # xs \<Rightarrow> Inr (fst (first_max x xs)))"

definition peak_suggestion ::
    "(cell list \<Rightarrow> int option list option) \<Rightarrow> dataframe \<Rightarrow> error + suggestion list" where
  "peak_suggestion to_datetime df =
     (if ''time:timestamp'' \<in> set (columns df) then
        (case to_datetime (col_values df ''time:timestamp'') of
           None \<Rightarrow> Inl ValueError
         | Some ts \<Rightarrow> bind (idxmax_hour (hours ts)) (\<lambda>peak_hour. Inr [PeakHour peak_hour]))
      else Inr [])"

text \<open>
  The analyses of the \<open>try\<close> block in source order. The \<open>hour\<close> column the last one
  adds to the caller's frame does not reach the result and is left out.
\<close>

definition suggestion_steps ::
    "(cell list \<Rightarrow> int option list option) \<Rightarrow> dataframe \<Rightarrow> trace list \<Rightarrow> error + suggestion list" where
  "suggestion_steps to_datetime df aligned_traces =
     bind (delay_suggestion df) (\<lambda>delay.
     bind (conformance_suggestion aligned_traces) (\<lambda>conformance.
     bind (peak_suggestion to_datetime df) (\<lambda>peak.
       Inr (frequent_activity df @ delay @ conformance @ category_suggestions df @
            resource_suggestion df @ peak))))"

text \<open>The analysis a message comes from, numbered in source order.\<close>

fun kind :: "suggestion \<Rightarrow> nat" where
  "kind NoData = 0"
| "kind (MostFrequent a n) = 1"
| "kind (Delay h) = 2"
| "kind (LowConformance f) = 3"
| "kind (HighConformance f) = 3"
| "kind (CategoryFocus c p) = 4"
| "kind (BusiestResource r n) = 5"
| "kind (PeakHour h) = 6"
| "kind Monitoring = 7"
| "kind Dashboards = 7"
| "kind Targets = 7"
| "kind GenerationError = 8"

definition default_suggestions :: "suggestion list" where
  "default_suggestions = [Monitoring, Dashboards, Targets]"

definition generate_sankhya_suggestions ::
    "(cell list \<Rightarrow> int option list option) \<Rightarrow> dataframe \<Rightarrow> trace list \<Rightarrow> suggestion list" where
  "generate_sankhya_suggestions to_datetime df aligned_traces =
     (if df_empty df then [NoData]
      else case suggestion_steps to_datetime df aligned_traces of
             Inl e \<Rightarrow> [GenerationError]
           | Inr suggestions \<Rightarrow>
               if length suggestions = 0 then default_suggestions else suggestions)"

text \<open>
  Frames for concrete evaluations: the preprocessed example log with a category column;
  a frame of long durations whose only timestamp is \<open>NaT\<close>; a frame with nothing to
  analyse.
\<close>

definition example_events :: dataframe where
  "example_events =
     \<lparr>columns = [''case:concept:name'', ''concept:name'', ''time:timestamp'', ''org:resource'',
                 ''process_category'', ''duration_seconds'', ''activity_sequence''],
      rows = [[CStr ''10'', CStr ''a'', CTime 1000000000, CNull, CStr ''sales'', CFloat 0, CInt 1],
              [CStr ''7'', CStr ''a'', CTime 2000000000, CStr ''r'', CStr ''sales'', CFloat 0, CInt 1],
              [CStr ''7'', CStr ''b'', CTime 9000000000000, CStr ''r'', CStr ''sales'', CFloat 8998, CInt 2],
              [CStr ''7'', CStr ''c'', CTime 18000000000000, CStr ''r'', CStr ''stock'', CFloat 9000, CInt 3]]\<rparr>"

definition undated_events :: dataframe where
  "undated_events =
     \<lparr>columns = [''duration_seconds'', ''time:timestamp''], rows = [[CFloat 7200, CNaT]]\<rparr>"

definition plain_frame :: dataframe where
  "plain_frame = \<lparr>columns = [''order_value''], rows = [[CInt 5]]\<rparr>"

section \<open>Properties of the data frame operations\<close>

lemma col_index_Some: "col_index n cs = Some i \<Longrightarrow> i < length cs \<and> cs ! i = n"
  by (induction cs arbitrary: i) (auto split: if_splits)

lemma col_index_None: "(col_index n cs = None) = (n \<notin> set cs)"
  by (induction cs) auto

lemma col_index_mem: "n \<in> set cs \<Longrightarrow> \<exists>i. col_index n cs = Some i"
  using col_index_None [of n cs] by (cases "col_index n cs") auto

lemma col_index_map: "distinct (map f cs) \<Longrightarrow> n \<in> set cs \<Longrightarrow> col_index (f n) (map f cs) = col_index n cs"
  by (induction cs) (auto simp: image_iff)

lemma col_index_append: "n \<in> set cs \<Longrightarrow> col_index n (cs @ ds) = col_index n cs"
  by (induction cs) auto

lemma col_index_snoc: "n \<notin> set cs \<Longrightarrow> col_index n (cs @ [n]) = Some (length cs)"
  by (induction cs) auto

lemma map2_map_same: "map2 f xs (map g xs) = map (\<lambda>x. f x (g x)) xs"
  by (induction xs) auto

lemma cumcount_length: "length (cumcount seen ks) = length ks"
  by (induction ks arbitrary: seen) auto

lemma groupby_diff_length: "length (groupby_diff prev xs) = length xs"
  by (induction xs arbitrary: prev) auto

lemma cumcount_filter:
  "map snd (filter (\<lambda>p. fst p = c) (zip ks (cumcount seen ks))) =
     [count_list seen c ..< count_list seen c + count_list ks c]"
proof (induction ks arbitrary: seen)
  case Nil
  then show ?case by simp
next
  case (Cons k ks)
  show ?case
  proof (cases "k = c")
    case True
    then show ?thesis using Cons [of "k # seen"] by (simp add: upt_conv_Cons)
  next
    case False
    then show ?thesis using Cons [of "k # seen"] by simp
  qed
qed

lemma groupby_diff_first:
  "i < length xs \<Longrightarrow> \<forall>j<i. fst (xs ! j) \<noteq> fst (xs ! i) \<Longrightarrow>
     groupby_diff prev xs ! i =
       (case prev (fst (xs ! i)) of None \<Rightarrow> None | Some p \<Rightarrow> td_diff p (snd (xs ! i)))"
proof (induction xs arbitrary: prev i)
  case Nil
  then show ?case by simp
next
  case (Cons x xs)
  obtain k t where x: "x = (k, t)" by (cases x)
  show ?case
  proof (cases i)
    case 0
    then show ?thesis using x by (simp cong: option.case_cong)
  next
    case (Suc m)
    have m: "m < length xs" using Cons.prems(1) Suc by simp
    have later: "\<forall>j<m. fst (xs ! j) \<noteq> fst (xs ! m)"
    proof (intro allI impI)
      fix j assume "j < m"
      then have "Suc j < i" using Suc by simp
      then have "fst ((x # xs) ! Suc j) \<noteq> fst ((x # xs) ! i)" using Cons.prems(2) by blast
      then show "fst (xs ! j) \<noteq> fst (xs ! m)" using Suc by simp
    qed
    have "0 < i" using Suc by simp
    then have "fst ((x # xs) ! 0) \<noteq> fst ((x # xs) ! i)" using Cons.prems(2) by blast
    then have k: "k \<noteq> fst (xs ! m)" using Suc x by simp
    have "groupby_diff prev (x # xs) ! i = groupby_diff (prev(k \<mapsto> t)) xs ! m"
      using Suc x by simp
    also have "\<dots> = (case (prev(k \<mapsto> t)) (fst (xs ! m)) of None \<Rightarrow> None
                     | Some p \<Rightarrow> td_diff p (snd (xs ! m)))"
      by (rule Cons.IH [OF m later])
    also have "\<dots> = (case prev (fst (xs ! m)) of None \<Rightarrow> None
                     | Some p \<Rightarrow> td_diff p (snd (xs ! m)))"
      using k by simp
    finally show ?thesis using Suc by (simp cong: option.case_cong)
  qed
qed

lemma groupby_diff_next:
  "j < i \<Longrightarrow> i < length xs \<Longrightarrow> fst (xs ! j) = fst (xs ! i) \<Longrightarrow>
   \<forall>l. j < l \<and> l < i \<longrightarrow> fst (xs ! l) \<noteq> fst (xs ! i) \<Longrightarrow>
     groupby_diff prev xs ! i = td_diff (snd (xs ! j)) (snd (xs ! i))"
proof (induction xs arbitrary: prev i j)
  case Nil
  then show ?case by simp
next
  case (Cons x xs)
  obtain k t where x: "x = (k, t)" by (cases x)
  from Cons.prems(1) obtain m where i: "i = Suc m" by (cases i) auto
  have m: "m < length xs" using Cons.prems(2) i by simp
  have step: "groupby_diff prev (x # xs) ! i = groupby_diff (prev(k \<mapsto> t)) xs ! m"
    using i x by simp
  show ?case
  proof (cases j)
    case 0
    have k: "k = fst (xs ! m)" using Cons.prems(3) 0 i x by simp
    have first: "\<forall>l<m. fst (xs ! l) \<noteq> fst (xs ! m)"
    proof (intro allI impI)
      fix l assume "l < m"
      then have "j < Suc l \<and> Suc l < i" using 0 i by simp
      then have "fst ((x # xs) ! Suc l) \<noteq> fst ((x # xs) ! i)" using Cons.prems(4) by blast
      then show "fst (xs ! l) \<noteq> fst (xs ! m)" using i by simp
    qed
    have "groupby_diff (prev(k \<mapsto> t)) xs ! m =
            (case (prev(k \<mapsto> t)) (fst (xs ! m)) of None \<Rightarrow> None
             | Some p \<Rightarrow> td_diff p (snd (xs ! m)))"
      by (rule groupby_diff_first [OF m first])
    also have "\<dots> = td_diff t (snd (xs ! m))" using k by simp
    finally show ?thesis using step 0 i x by simp
  next
    case (Suc j')
    have a: "j' < m" using Cons.prems(1) Suc i by simp
    have b: "fst (xs ! j') = fst (xs ! m)" using Cons.prems(3) Suc i by simp
    have c: "\<forall>l. j' < l \<and> l < m \<longrightarrow> fst (xs ! l) \<noteq> fst (xs ! m)"
    proof (intro allI impI)
      fix l assume "j' < l \<and> l < m"
      then have "j < Suc l \<and> Suc l < i" using Suc i by simp
      then have "fst ((x # xs) ! Suc l) \<noteq> fst ((x # xs) ! i)" using Cons.prems(4) by blast
      then show "fst (xs ! l) \<noteq> fst (xs ! m)" using i by simp
    qed
    have "groupby_diff (prev(k \<mapsto> t)) xs ! m = td_diff (snd (xs ! j')) (snd (xs ! m))"
      by (rule Cons.IH [OF a m b c])
    then show ?thesis using step Suc i by simp
  qed
qed

lemma map2_map_map: "map2 f xs (map g (map h xs)) = map (\<lambda>x. f x (g (h x))) xs"
  by (induction xs) auto

lemma astype_str_Some:
  "col_index n (columns d) = Some i \<Longrightarrow>
     astype_str str d n = Inr (d\<lparr>rows := map (\<lambda>r. r[i := CStr (str (r ! i))]) (rows d)\<rparr>)"
  by (simp add: astype_str_def bind_def get_column_def set_column_def map2_map_map del: map_map)

lemma set_column_fresh:
  "n \<notin> set (columns d) \<Longrightarrow>
     set_column d n vs = d\<lparr>columns := columns d @ [n], rows := map2 (\<lambda>r v. r @ [v]) (rows d) vs\<rparr>"
  using col_index_None [of n "columns d"] by (simp add: set_column_def)

lemma append_col_nth:
  "length S = length vs \<Longrightarrow> \<forall>r\<in>set S. i < length r \<Longrightarrow>
     map (\<lambda>r. r ! i) (map2 (\<lambda>r v. r @ [v]) S vs) = map (\<lambda>r. r ! i) S"
  by (induction S vs rule: list_induct2) (auto simp: nth_append)

lemma append_col_last:
  "length S = length vs \<Longrightarrow> \<forall>r\<in>set S. length r = n \<Longrightarrow>
     map (\<lambda>r. r ! n) (map2 (\<lambda>r v. r @ [v]) S vs) = vs"
  by (induction S vs rule: list_induct2) (auto simp: nth_append)

lemma append_col_take:
  "length S = length vs \<Longrightarrow> \<forall>r\<in>set S. length r = n \<Longrightarrow>
     map (take n) (map2 (\<lambda>r v. r @ [v]) S vs) = S"
  by (induction S vs rule: list_induct2) auto

lemma append_col_length:
  "length S = length vs \<Longrightarrow> \<forall>r\<in>set S. length r = n \<Longrightarrow>
     \<forall>r\<in>set (map2 (\<lambda>r v. r @ [v]) S vs). length r = Suc n"
  by (induction S vs rule: list_induct2) auto

lemma distinct_count_list: "distinct xs \<Longrightarrow> count_list xs x \<le> 1"
  by (induction xs) (auto simp: count_list_0_iff)

lemma update_col_same:
  "length rs = length vs \<Longrightarrow> \<forall>r\<in>set rs. i < length r \<Longrightarrow>
     map (\<lambda>r. r ! i) (map2 (\<lambda>r v. r[i := v]) rs vs) = vs"
  by (induction rs vs rule: list_induct2) auto

lemma update_col_other:
  "length rs = length vs \<Longrightarrow> j \<noteq> i \<Longrightarrow>
     map (\<lambda>r. r ! j) (map2 (\<lambda>r v. r[i := v]) rs vs) = map (\<lambda>r. r ! j) rs"
  by (induction rs vs rule: list_induct2) auto

lemma rename_col_fresh:
  "rename_col n = ''duration_seconds'' \<longleftrightarrow> n = ''duration_seconds''"
  "rename_col n = ''activity_sequence'' \<longleftrightarrow> n = ''activity_sequence''"
  by (auto simp: rename_col_def)

lemma preprocess_data_shape:
  assumes ef: "event_frame df"
  shows "\<exists>ic ia it S.
     col_index ''case_id'' (columns df) = Some ic \<and>
     col_index ''activity'' (columns df) = Some ia \<and>
     col_index ''timestamp'' (columns df) = Some it \<and>
     S = sort_key (\<lambda>r. (str_val (r ! ic), ts_ord (r ! it)))
           (map (\<lambda>r. r[ic := CStr (str (r ! ic)), ia := CStr (str (r ! ia))]) (rows df)) \<and>
     columns (preprocess_data str df) =
       map rename_col (columns df) @ [''duration_seconds'', ''activity_sequence''] \<and>
     map (take (length (columns df))) (rows (preprocess_data str df)) = S \<and>
     (\<forall>r\<in>set S. is_str (r ! ic) \<and> is_str (r ! ia) \<and> is_datetime (r ! it)) \<and>
     col_values (preprocess_data str df) ''case:concept:name'' = map (\<lambda>r. r ! ic) S \<and>
     col_values (preprocess_data str df) ''concept:name'' = map (\<lambda>r. r ! ia) S \<and>
     col_values (preprocess_data str df) ''time:timestamp'' = map (\<lambda>r. r ! it) S \<and>
     col_values (preprocess_data str df) ''duration_seconds'' =
       map (\<lambda>v. CFloat (fillna0 (total_seconds v)))
         (groupby_diff Map.empty (zip (map (\<lambda>r. r ! ic) S) (map (\<lambda>r. r ! it) S))) \<and>
     col_values (preprocess_data str df) ''activity_sequence'' =
       map (\<lambda>n. CInt (int n + 1)) (cumcount [] (map (\<lambda>r. r ! ic) S)) \<and>
     mset (map (\<lambda>r. r ! ic) S) = mset (map (\<lambda>v. CStr (str v)) (col_values df ''case_id'')) \<and>
     mset (map (\<lambda>r. r ! ia) S) = mset (map (\<lambda>v. CStr (str v)) (col_values df ''activity''))"
proof -
  let ?cols = "columns df"
  let ?cols' = "map rename_col ?cols"
  let ?n = "length ?cols"
  from ef have wf: "\<forall>r\<in>set (rows df). length r = ?n"
    and ne: "\<not> df_empty df"
    and dist: "distinct ?cols'"
    and mem: "''case_id'' \<in> set ?cols" "''activity'' \<in> set ?cols" "''timestamp'' \<in> set ?cols"
    and fresh: "''duration_seconds'' \<notin> set ?cols" "''activity_sequence'' \<notin> set ?cols"
    and dt: "list_all is_datetime (col_values df ''timestamp'')"
    by (simp_all add: event_frame_def wf_frame_def list_all_iff)
  from mem obtain ic ia it where
    ic: "col_index ''case_id'' ?cols = Some ic" and
    ia: "col_index ''activity'' ?cols = Some ia" and
    it: "col_index ''timestamp'' ?cols = Some it"
    using col_index_mem by metis
  have ic': "col_index ''case:concept:name'' ?cols' = Some ic"
    using col_index_map [OF dist mem(1)] ic by (simp add: rename_col_def)
  have ia': "col_index ''concept:name'' ?cols' = Some ia"
    using col_index_map [OF dist mem(2)] ia by (simp add: rename_col_def)
  have it': "col_index ''time:timestamp'' ?cols' = Some it"
    using col_index_map [OF dist mem(3)] it by (simp add: rename_col_def)
  have lt: "ic < ?n" "ia < ?n" "it < ?n"
    using col_index_Some [OF ic] col_index_Some [OF ia] col_index_Some [OF it] by simp_all
  have neq: "ic \<noteq> ia" "ic \<noteq> it" "ia \<noteq> it"
    using col_index_Some [OF ic] col_index_Some [OF ia] col_index_Some [OF it] by auto
  let ?R = "map (\<lambda>r. r[ic := CStr (str (r ! ic)), ia := CStr (str (r ! ia))]) (rows df)"
  let ?key = "\<lambda>r. (str_val (r ! ic), ts_ord (r ! it))"
  let ?S = "sort_key ?key ?R"
  let ?ks = "map (\<lambda>r. r ! ic) ?S"
  let ?ts = "map (\<lambda>r. r ! it) ?S"
  let ?D = "map (\<lambda>v. CFloat (fillna0 (total_seconds v))) (groupby_diff Map.empty (zip ?ks ?ts))"
  let ?Q = "map (\<lambda>n. CInt (int n + 1)) (cumcount [] ?ks)"
  let ?d0 = "rename_columns df"
  have a1: "astype_str str ?d0 ''case:concept:name'' =
      Inr (?d0\<lparr>rows := map (\<lambda>r. r[ic := CStr (str (r ! ic))]) (rows df)\<rparr>)"
    using astype_str_Some [of "''case:concept:name''" ?d0 ic str] ic'
    by (simp add: rename_columns_def)
  have a2: "astype_str str (?d0\<lparr>rows := map (\<lambda>r. r[ic := CStr (str (r ! ic))]) (rows df)\<rparr>)
       ''concept:name'' = Inr (?d0\<lparr>rows := ?R\<rparr>)"
    using astype_str_Some [of "''concept:name''"
        "?d0\<lparr>rows := map (\<lambda>r. r[ic := CStr (str (r ! ic))]) (rows df)\<rparr>" ia str] ia' neq
    by (simp add: rename_columns_def o_def)
  have Rlen: "\<forall>r\<in>set ?R. length r = ?n" using wf by auto
  have Slen: "\<forall>r\<in>set ?S. length r = ?n" using Rlen by simp
  have Rstr: "\<forall>r\<in>set ?R. is_str (r ! ic) \<and> is_str (r ! ia) \<and> is_datetime (r ! it)"
  proof
    fix r assume "r \<in> set ?R"
    then obtain r0 where r0: "r0 \<in> set (rows df)"
      and r: "r = r0[ic := CStr (str (r0 ! ic)), ia := CStr (str (r0 ! ia))]" by auto
    have "length r0 = ?n" using wf r0 by simp
    then have "r ! ic = CStr (str (r0 ! ic))" "r ! ia = CStr (str (r0 ! ia))" "r ! it = r0 ! it"
      using r lt neq by simp_all
    moreover have "is_datetime (r0 ! it)"
      using dt r0 it by (simp add: col_values_def get_column_def list_all_iff)
    ultimately show "is_str (r ! ic) \<and> is_str (r ! ia) \<and> is_datetime (r ! it)" by simp
  qed
  have a3: "sort_values (?d0\<lparr>rows := ?R\<rparr>) ''case:concept:name'' ''time:timestamp'' =
      Inr (?d0\<lparr>rows := ?S\<rparr>)"
    using ic' it' Rstr distinct_count_list [OF dist, of "''case:concept:name''"]
      distinct_count_list [OF dist, of "''time:timestamp''"]
    by (simp add: sort_values_def rename_columns_def list_all_iff)
  have Sdt: "list_all is_datetime ?ts" using Rstr by (simp add: list_all_iff)
  have a4: "duration_seconds (?d0\<lparr>rows := ?S\<rparr>) ''case:concept:name'' ''time:timestamp'' = Inr ?D"
    using ic' it' Sdt
    by (simp add: duration_seconds_def bind_def get_column_def rename_columns_def del: map_map)
  have f1: "''duration_seconds'' \<notin> set ?cols'" "''activity_sequence'' \<notin> set ?cols'"
  proof -
    show "''duration_seconds'' \<notin> set ?cols'"
    proof
      assume "''duration_seconds'' \<in> set ?cols'"
      then obtain x where x: "x \<in> set ?cols" "rename_col x = ''duration_seconds''" by auto
      from x(2) have "x = ''duration_seconds''" using rename_col_fresh(1) by blast
      then show False using fresh(1) x(1) by simp
    qed
    show "''activity_sequence'' \<notin> set ?cols'"
    proof
      assume "''activity_sequence'' \<in> set ?cols'"
      then obtain x where x: "x \<in> set ?cols" "rename_col x = ''activity_sequence''" by auto
      from x(2) have "x = ''activity_sequence''" using rename_col_fresh(2) by blast
      then show False using fresh(2) x(1) by simp
    qed
  qed
  let ?S1 = "map2 (\<lambda>r v. r @ [v]) ?S ?D"
  let ?d4 = "?d0\<lparr>columns := ?cols' @ [''duration_seconds''], rows := ?S1\<rparr>"
  have a5: "set_column (?d0\<lparr>rows := ?S\<rparr>) ''duration_seconds'' ?D = ?d4"
    using f1 by (simp add: set_column_fresh rename_columns_def)
  have Dlen: "length ?S = length ?D" by (simp add: groupby_diff_length)
  have Qlen: "length ?S1 = length ?Q" by (simp add: groupby_diff_length cumcount_length)
  have S1len: "\<forall>r\<in>set ?S1. length r = Suc ?n"
    by (rule append_col_length [OF Dlen Slen])
  have ltS: "\<And>i. i < ?n \<Longrightarrow> \<forall>r\<in>set ?S. i < length r" using Slen by simp
  have ltS1: "\<And>i. i < Suc ?n \<Longrightarrow> \<forall>r\<in>set ?S1. i < length r" using S1len by simp
  have col1: "\<And>i. i < ?n \<Longrightarrow> map (\<lambda>r. r ! i) ?S1 = map (\<lambda>r. r ! i) ?S"
    by (rule append_col_nth [OF Dlen ltS])
  have ic4: "col_index ''case:concept:name'' (?cols' @ [''duration_seconds'']) = Some ic"
    using col_index_append [of "''case:concept:name''" ?cols'] ic' col_index_None [of "''case:concept:name''" ?cols']
    by (cases "''case:concept:name'' \<in> set ?cols'") auto
  have a6: "activity_sequence ?d4 ''case:concept:name'' = Inr ?Q"
    using ic4 col1 [OF lt(1)]
    by (simp add: activity_sequence_def bind_def get_column_def rename_columns_def del: map_map)
  let ?S2 = "map2 (\<lambda>r v. r @ [v]) ?S1 ?Q"
  let ?out = "?d0\<lparr>columns := ?cols' @ [''duration_seconds'', ''activity_sequence''], rows := ?S2\<rparr>"
  have a7: "set_column ?d4 ''activity_sequence'' ?Q = ?out"
    using f1 by (simp add: set_column_fresh rename_columns_def)
  have steps: "preprocess_steps str df = Inr ?out"
    unfolding preprocess_steps_def
    by (simp only: a1 a2 a3 a4 a5 a6 a7 bind_def sum.case)
  have out: "preprocess_data str df = ?out"
    using ne steps by (simp add: preprocess_data_def)
  have col2: "\<And>i. i < Suc ?n \<Longrightarrow> map (\<lambda>r. r ! i) ?S2 = map (\<lambda>r. r ! i) ?S1"
    by (rule append_col_nth [OF Qlen ltS1])
  have col: "\<And>i. i < ?n \<Longrightarrow> map (\<lambda>r. r ! i) ?S2 = map (\<lambda>r. r ! i) ?S"
    using col1 col2 by simp
  have idx: "\<And>nm i. col_index nm ?cols' = Some i \<Longrightarrow>
      col_index nm (?cols' @ [''duration_seconds'', ''activity_sequence'']) = Some i"
  proof -
    fix nm i assume h: "col_index nm ?cols' = Some i"
    then have "nm \<in> set ?cols'" using col_index_None [of nm ?cols'] by auto
    then show "col_index nm (?cols' @ [''duration_seconds'', ''activity_sequence'']) = Some i"
      using col_index_append [of nm ?cols'] h by simp
  qed
  have cv: "\<And>nm i. col_index nm ?cols' = Some i \<Longrightarrow> i < ?n \<Longrightarrow>
      col_values ?out nm = map (\<lambda>r. r ! i) ?S"
    using idx col by (simp add: col_values_def get_column_def rename_columns_def del: map_map)
  have idxD: "col_index ''duration_seconds'' (?cols' @ [''duration_seconds'', ''activity_sequence'']) = Some ?n"
    using col_index_snoc [OF f1(1)] col_index_append [of "''duration_seconds''" "?cols' @ [''duration_seconds'']" "[''activity_sequence'']"]
    by simp
  have idxQ: "col_index ''activity_sequence'' (?cols' @ [''duration_seconds'', ''activity_sequence'']) = Some (Suc ?n)"
    using col_index_snoc [of "''activity_sequence''" "?cols' @ [''duration_seconds'']"] f1(2)
    by simp
  have cvD: "col_values ?out ''duration_seconds'' = ?D"
    using idxD col2 [of ?n] append_col_last [OF Dlen Slen]
    by (simp add: col_values_def get_column_def rename_columns_def del: map_map)
  have cvQ: "col_values ?out ''activity_sequence'' = ?Q"
    using idxQ append_col_last [OF Qlen S1len]
    by (simp add: col_values_def get_column_def rename_columns_def del: map_map)
  have tk: "map (take ?n) ?S2 = ?S"
  proof -
    have "map (take ?n) ?S2 = map (take ?n) (map (take (Suc ?n)) ?S2)"
      by (simp add: min_def)
    also have "map (take (Suc ?n)) ?S2 = ?S1" by (rule append_col_take [OF Qlen S1len])
    also have "map (take ?n) ?S1 = ?S" by (rule append_col_take [OF Dlen Slen])
    finally show ?thesis .
  qed
  have updc: "\<And>r. r \<in> set (rows df) \<Longrightarrow>
      r[ic := CStr (str (r ! ic)), ia := CStr (str (r ! ia))] ! ic = CStr (str (r ! ic))"
    using wf lt neq by simp
  have upda: "\<And>r. r \<in> set (rows df) \<Longrightarrow>
      r[ic := CStr (str (r ! ic)), ia := CStr (str (r ! ia))] ! ia = CStr (str (r ! ia))"
    using wf lt neq by simp
  have Rc: "map (\<lambda>r. r ! ic) ?R = map (\<lambda>r. CStr (str (r ! ic))) (rows df)"
    unfolding map_map o_def by (rule map_cong [OF refl]) (rule updc)
  have Ra: "map (\<lambda>r. r ! ia) ?R = map (\<lambda>r. CStr (str (r ! ia))) (rows df)"
    unfolding map_map o_def by (rule map_cong [OF refl]) (rule upda)
  have Sc: "mset (map (\<lambda>r. r ! ic) ?S) = mset (map (\<lambda>r. r ! ic) ?R)"
    by (simp only: mset_map mset_sort)
  have Sa: "mset (map (\<lambda>r. r ! ia) ?S) = mset (map (\<lambda>r. r ! ia) ?R)"
    by (simp only: mset_map mset_sort)
  have dfc: "col_values df ''case_id'' = map (\<lambda>r. r ! ic) (rows df)"
    using ic by (simp add: col_values_def get_column_def)
  have dfa: "col_values df ''activity'' = map (\<lambda>r. r ! ia) (rows df)"
    using ia by (simp add: col_values_def get_column_def)
  have "mset (map (\<lambda>r. r ! ic) ?S) = mset (map (\<lambda>r. CStr (str (r ! ic))) (rows df))"
    by (simp only: Sc Rc)
  also have "\<dots> = mset (map (\<lambda>v. CStr (str v)) (col_values df ''case_id''))"
    by (simp only: dfc map_map o_def)
  finally have castc: "mset (map (\<lambda>r. r ! ic) ?S) =
      mset (map (\<lambda>v. CStr (str v)) (col_values df ''case_id''))" .
  have "mset (map (\<lambda>r. r ! ia) ?S) = mset (map (\<lambda>r. CStr (str (r ! ia))) (rows df))"
    by (simp only: Sa Ra)
  also have "\<dots> = mset (map (\<lambda>v. CStr (str v)) (col_values df ''activity''))"
    by (simp only: dfa map_map o_def)
  finally have casta: "mset (map (\<lambda>r. r ! ia) ?S) =
      mset (map (\<lambda>v. CStr (str v)) (col_values df ''activity''))" .
  have oc: "columns ?out = map rename_col (columns df) @ [''duration_seconds'', ''activity_sequence'']"
    by (simp add: rename_columns_def)
  have otk: "map (take (length (columns df))) (rows ?out) = ?S"
    using tk by (simp add: rename_columns_def del: map_map)
  have Sstr: "\<forall>r\<in>set ?S. is_str (r ! ic) \<and> is_str (r ! ia) \<and> is_datetime (r ! it)"
    using Rstr by simp
  show ?thesis
    apply (rule exI [of _ ic], rule exI [of _ ia], rule exI [of _ it], rule exI [of _ ?S])
    unfolding out
    by (intro conjI refl ic ia it oc otk Sstr cv [OF ic' lt(1)] cv [OF ia' lt(2)] cv [OF it' lt(3)]
          cvD cvQ castc casta)
qed

lemma example_log_ok: "event_frame example_log"
  by code_simp

lemma example_log_out:
  "preprocess_data py_str example_log =
   \<lparr>columns =
    [''case:concept:name'', ''concept:name'', ''time:timestamp'',
     ''org:resource'', ''duration_seconds'', ''activity_sequence''],
    rows =
      [[CStr ''10'', CStr ''a'', CTime 1000000000, CNull, CFloat 0, CInt 1],
       [CStr ''7'', CStr ''a'', CTime 2000000000, CStr ''r'', CFloat 0, CInt 1],
       [CStr ''7'', CStr ''b'', CTime 5000000000, CStr ''r'', CFloat 3, CInt 2],
       [CStr ''7'', CStr ''c'', CNaT, CStr ''r'', CFloat 0, CInt 3]]\<rparr>"
  by code_simp

lemma filter_zip_map:
  "map snd (filter (\<lambda>p. fst p = c) (zip ks (map f xs))) =
     map f (map snd (filter (\<lambda>p. fst p = c) (zip ks xs)))"
proof (induction ks arbitrary: xs)
  case Nil
  then show ?case by simp
next
  case (Cons k ks)
  then show ?case by (cases xs) auto
qed

subsection \<open>What the steps of preprocess\_data leave behind\<close>

lemma col_values_Some:
  "col_index n (columns d) = Some i \<Longrightarrow> col_values d n = map (\<lambda>r. r ! i) (rows d)"
  by (simp add: col_values_def get_column_def)

lemma col_values_None: "col_index n (columns d) = None \<Longrightarrow> col_values d n = []"
  by (simp add: col_values_def get_column_def)

lemma get_column_Inr:
  "get_column d n = Inr vs \<Longrightarrow> n \<in> set (columns d) \<and> col_values d n = vs \<and> length vs = length (rows d)"
  using col_index_None [of n "columns d"]
  by (auto simp: get_column_def col_values_def split: option.splits)

lemma col_values_length:
  "n \<in> set (columns d) \<Longrightarrow> length (col_values d n) = length (rows d)"
  using col_index_mem [of n "columns d"] by (auto simp: col_values_Some)

lemma wf_frame_rows: "wf_frame d \<Longrightarrow> r \<in> set (rows d) \<Longrightarrow> length r = length (columns d)"
  by (simp add: wf_frame_def list_all_iff)

lemma col_index_append_other:
  "m \<noteq> n \<Longrightarrow> col_index m (cs @ [n]) = col_index m cs"
  by (induction cs) auto

lemma set_column_wf:
  assumes "wf_frame d" and "length vs = length (rows d)"
  shows "wf_frame (set_column d n vs) \<and> length (rows (set_column d n vs)) = length (rows d)"
proof (cases "col_index n (columns d)")
  case None
  have "\<forall>r\<in>set (map2 (\<lambda>r v. r @ [v]) (rows d) vs). length r = Suc (length (columns d))"
    using append_col_length [of "rows d" vs "length (columns d)"] assms wf_frame_rows [OF assms(1)]
    by simp
  then show ?thesis using None assms(2) by (simp add: set_column_def wf_frame_def list_all_iff)
next
  case (Some i)
  have "\<forall>r\<in>set (map2 (\<lambda>r v. r[i := v]) (rows d) vs). length r = length (columns d)"
    using wf_frame_rows [OF assms(1)] by (auto dest: set_zip_leftD)
  then show ?thesis using Some assms(2) by (simp add: set_column_def wf_frame_def list_all_iff)
qed

lemma set_column_same:
  assumes "wf_frame d" and "length vs = length (rows d)"
  shows "col_values (set_column d n vs) n = vs"
proof (cases "col_index n (columns d)")
  case None
  then have n: "n \<notin> set (columns d)" using col_index_None by simp
  have "map (\<lambda>r. r ! length (columns d)) (map2 (\<lambda>r v. r @ [v]) (rows d) vs) = vs"
    using append_col_last [of "rows d" vs "length (columns d)"] assms wf_frame_rows [OF assms(1)]
    by simp
  then show ?thesis
    using None col_index_snoc [OF n]
    by (simp add: set_column_def col_values_def get_column_def del: map_map)
next
  case (Some i)
  then have "i < length (columns d)" using col_index_Some by blast
  then have "\<forall>r\<in>set (rows d). i < length r" using wf_frame_rows [OF assms(1)] by simp
  then have "map (\<lambda>r. r ! i) (map2 (\<lambda>r v. r[i := v]) (rows d) vs) = vs"
    using update_col_same [of "rows d" vs i] assms(2) by simp
  then show ?thesis
    using Some by (simp add: set_column_def col_values_def get_column_def del: map_map)
qed

lemma set_column_other:
  assumes "wf_frame d" and "length vs = length (rows d)" and "m \<noteq> n"
  shows "col_values (set_column d n vs) m = col_values d m"
proof (cases "col_index n (columns d)")
  case None
  show ?thesis
  proof (cases "col_index m (columns d)")
    case nm: None
    then show ?thesis
      using None col_index_append_other [OF assms(3), of "columns d"]
      by (simp add: set_column_def col_values_def get_column_def)
  next
    case (Some j)
    then have "j < length (columns d)" using col_index_Some by blast
    then have "\<forall>r\<in>set (rows d). j < length r" using wf_frame_rows [OF assms(1)] by simp
    then have "map (\<lambda>r. r ! j) (map2 (\<lambda>r v. r @ [v]) (rows d) vs) = map (\<lambda>r. r ! j) (rows d)"
      using append_col_nth [of "rows d" vs j] assms(2) by simp
    then show ?thesis
      using None Some col_index_append_other [OF assms(3), of "columns d"]
      by (simp add: set_column_def col_values_def get_column_def del: map_map)
  qed
next
  case (Some i)
  show ?thesis
  proof (cases "col_index m (columns d)")
    case None
    then show ?thesis using Some by (simp add: set_column_def col_values_def get_column_def)
  next
    case sj: (Some j)
    have "j \<noteq> i" using col_index_Some [OF Some] col_index_Some [OF sj] assms(3) by auto
    then have "map (\<lambda>r. r ! j) (map2 (\<lambda>r v. r[i := v]) (rows d) vs) = map (\<lambda>r. r ! j) (rows d)"
      using update_col_other [of "rows d" vs j i] assms(2) by simp
    then show ?thesis
      using Some sj by (simp add: set_column_def col_values_def get_column_def del: map_map)
  qed
qed

lemma set_column_columns:
  "take (length (columns d)) (columns (set_column d n vs)) = columns d \<and>
   length (columns d) \<le> length (columns (set_column d n vs)) \<and>
   set (columns d) \<subseteq> set (columns (set_column d n vs)) \<and>
   n \<in> set (columns (set_column d n vs))"
  using col_index_None [of n "columns d"]
  by (cases "col_index n (columns d)") (auto simp: set_column_def)

lemma astype_str_Inr:
  assumes "wf_frame d" and "astype_str str d n = Inr d'"
  shows "wf_frame d' \<and> columns d' = columns d \<and> length (rows d') = length (rows d) \<and>
         n \<in> set (columns d) \<and>
         col_values d' n = map (\<lambda>v. CStr (str v)) (col_values d n) \<and>
         (\<forall>m. m \<noteq> n \<longrightarrow> col_values d' m = col_values d m)"
proof -
  from assms(2) obtain vs where g: "get_column d n = Inr vs"
    and d': "d' = set_column d n (map (\<lambda>v. CStr (str v)) vs)"
    by (auto simp: astype_str_def bind_def split: sum.splits)
  note gi = get_column_Inr [OF g]
  have len: "length (map (\<lambda>v. CStr (str v)) vs) = length (rows d)" using gi by simp
  obtain i where i: "col_index n (columns d) = Some i" using gi col_index_mem by blast
  have cols: "columns d' = columns d" using i by (simp add: d' set_column_def)
  show ?thesis
    using set_column_wf [OF assms(1) len, of n] set_column_same [OF assms(1) len, of n]
      set_column_other [OF assms(1) len] gi cols
    by (simp add: d')
qed

lemma list_all_rows_cols:
  "list_all (\<lambda>r. P (r ! i) \<and> Q (r ! j)) rs =
     (list_all P (map (\<lambda>r. r ! i) rs) \<and> list_all Q (map (\<lambda>r. r ! j) rs))"
  by (induction rs) auto

lemma zip_columns_key:
  "map (\<lambda>(k, t). (f k, g t)) (zip (map a xs) (map b xs)) = map (\<lambda>r. (f (a r), g (b r))) xs"
  by (induction xs) auto

lemma sort_values_Inr:
  assumes "wf_frame d" and "sort_values d b1 b2 = Inr d'"
  shows "wf_frame d' \<and> columns d' = columns d \<and> length (rows d') = length (rows d) \<and>
         b1 \<in> set (columns d) \<and> b2 \<in> set (columns d) \<and>
         count_list (columns d) b1 \<le> 1 \<and> count_list (columns d) b2 \<le> 1 \<and>
         list_all is_str (col_values d b1) \<and> list_all is_datetime (col_values d b2) \<and>
         sorted (map (\<lambda>(k, t). (str_val k, ts_ord t)) (zip (col_values d' b1) (col_values d' b2))) \<and>
         (\<forall>m. mset (col_values d' m) = mset (col_values d m))"
proof -
  from assms(2) obtain i j where i: "col_index b1 (columns d) = Some i"
    and j: "col_index b2 (columns d) = Some j"
    and cnt: "\<not> (1 < count_list (columns d) b1 \<or> 1 < count_list (columns d) b2)"
    and chk: "list_all (\<lambda>r. is_str (r ! i) \<and> is_datetime (r ! j)) (rows d)"
    and d': "d' = d\<lparr>rows := sort_key (\<lambda>r. (str_val (r ! i), ts_ord (r ! j))) (rows d)\<rparr>"
    by (auto simp: sort_values_def split: option.splits if_splits)
  let ?key = "\<lambda>r. (str_val (r ! i), ts_ord (r ! j))"
  let ?S = "sort_key ?key (rows d)"
  have wf: "wf_frame d'" using assms(1) by (simp add: d' wf_frame_def list_all_iff)
  have mem: "b1 \<in> set (columns d)" "b2 \<in> set (columns d)"
    using i j col_index_None [of b1 "columns d"] col_index_None [of b2 "columns d"] by auto
  have z: "map (\<lambda>(k, t). (str_val k, ts_ord t)) (zip (map (\<lambda>r. r ! i) ?S) (map (\<lambda>r. r ! j) ?S)) =
      map ?key ?S"
    by (rule zip_columns_key)
  have "sorted (map ?key ?S)" by (rule sorted_sort_key)
  then have srt: "sorted (map (\<lambda>(k, t). (str_val k, ts_ord t)) (zip (col_values d' b1) (col_values d' b2)))"
    using i j z by (simp add: d' col_values_def get_column_def del: map_map)
  have ms: "\<forall>m. mset (col_values d' m) = mset (col_values d m)"
  proof
    fix m
    show "mset (col_values d' m) = mset (col_values d m)"
    proof (cases "col_index m (columns d)")
      case None
      then show ?thesis by (simp add: d' col_values_def get_column_def)
    next
      case (Some k)
      have "mset (map (\<lambda>r. r ! k) ?S) = mset (map (\<lambda>r. r ! k) (rows d))"
        by (simp only: mset_map mset_sort)
      then show ?thesis using Some by (simp add: d' col_values_def get_column_def del: map_map)
    qed
  qed
  have str: "list_all is_str (col_values d b1)" "list_all is_datetime (col_values d b2)"
    using chk i j by (simp_all add: list_all_rows_cols col_values_def get_column_def)
  show ?thesis using wf mem cnt srt ms str by (simp add: d')
qed

lemma list_all_mset: "mset xs = mset ys \<Longrightarrow> list_all P xs = list_all P ys"
  by (metis list_all_iff set_mset_mset)

lemma duration_seconds_Inr:
  assumes "duration_seconds d k c = Inr dur"
  shows "dur = map (\<lambda>v. CFloat (fillna0 (total_seconds v)))
                 (groupby_diff Map.empty (zip (col_values d k) (col_values d c))) \<and>
         length dur = length (rows d) \<and> list_all is_datetime (col_values d c)"
proof -
  from assms obtain ks ts where k: "get_column d k = Inr ks" and c: "get_column d c = Inr ts"
    and dt: "list_all is_datetime ts"
    and dur: "dur = map (\<lambda>v. CFloat (fillna0 (total_seconds v))) (groupby_diff Map.empty (zip ks ts))"
    by (auto simp: duration_seconds_def bind_def split: sum.splits if_splits)
  note gk = get_column_Inr [OF k] and gc = get_column_Inr [OF c]
  show ?thesis using gk gc dt by (simp add: dur groupby_diff_length)
qed

lemma activity_sequence_Inr:
  assumes "activity_sequence d k = Inr sq"
  shows "sq = map (\<lambda>n. CInt (int n + 1)) (cumcount [] (col_values d k)) \<and>
         length sq = length (rows d)"
proof -
  from assms obtain ks where k: "get_column d k = Inr ks"
    and sq: "sq = map (\<lambda>n. CInt (int n + 1)) (cumcount [] ks)"
    by (auto simp: activity_sequence_def bind_def split: sum.splits)
  show ?thesis using get_column_Inr [OF k] by (simp add: sq cumcount_length)
qed

lemma preprocess_steps_Inr:
  assumes wf: "wf_frame df" and st: "preprocess_steps str df = Inr out"
  shows "take (length (columns df)) (columns out) = map rename_col (columns df)"
    and "length (rows out) = length (rows df)"
    and "length (col_values out ''case:concept:name'') = length (rows out)"
    and "length (col_values out ''time:timestamp'') = length (rows out)"
    and "list_all is_str (col_values out ''case:concept:name'')"
    and "list_all is_str (col_values out ''concept:name'')"
    and "list_all is_datetime (col_values out ''time:timestamp'')"
    and "mset (col_values out ''case:concept:name'') =
           mset (map (\<lambda>v. CStr (str v)) (col_values (rename_columns df) ''case:concept:name''))"
    and "mset (col_values out ''concept:name'') =
           mset (map (\<lambda>v. CStr (str v)) (col_values (rename_columns df) ''concept:name''))"
    and "sorted (map (\<lambda>(k, t). (str_val k, ts_ord t))
           (zip (col_values out ''case:concept:name'') (col_values out ''time:timestamp'')))"
    and "col_values out ''duration_seconds'' =
           map (\<lambda>v. CFloat (fillna0 (total_seconds v)))
             (groupby_diff Map.empty
               (zip (col_values out ''case:concept:name'') (col_values out ''time:timestamp'')))"
    and "col_values out ''activity_sequence'' =
           map (\<lambda>n. CInt (int n + 1)) (cumcount [] (col_values out ''case:concept:name''))"
proof -
  let ?K = "''case:concept:name''" and ?A = "''concept:name''" and ?T = "''time:timestamp''"
  let ?D = "''duration_seconds''" and ?Q = "''activity_sequence''"
  let ?d0 = "rename_columns df"
  let ?f = "\<lambda>v. CStr (str v)"
  have wf0: "wf_frame ?d0" using wf by (simp add: rename_columns_def wf_frame_def)
  from st obtain d1 d2 d3 dur sq where
    a1: "astype_str str ?d0 ?K = Inr d1" and
    a2: "astype_str str d1 ?A = Inr d2" and
    a3: "sort_values d2 ?K ?T = Inr d3" and
    a4: "duration_seconds d3 ?K ?T = Inr dur" and
    a5: "activity_sequence (set_column d3 ?D dur) ?K = Inr sq" and
    out: "out = set_column (set_column d3 ?D dur) ?Q sq"
    by (auto simp: preprocess_steps_def bind_def split: sum.splits)
  note s1 = astype_str_Inr [OF wf0 a1]
  then have wf1: "wf_frame d1" by simp
  note s2 = astype_str_Inr [OF wf1 a2]
  then have wf2: "wf_frame d2" by simp
  note s3 = sort_values_Inr [OF wf2 a3]
  then have wf3: "wf_frame d3" by simp
  note s4 = duration_seconds_Inr [OF a4]
  then have ld: "length dur = length (rows d3)" by blast
  let ?d4 = "set_column d3 ?D dur"
  note w4 = set_column_wf [OF wf3 ld, of ?D]
  then have wf4: "wf_frame ?d4" by simp
  note s5 = activity_sequence_Inr [OF a5]
  then have lq: "length sq = length (rows ?d4)" by blast
  note w5 = set_column_wf [OF wf4 lq, of ?Q]
  have o4: "\<And>m. m \<noteq> ?D \<Longrightarrow> col_values ?d4 m = col_values d3 m"
    by (rule set_column_other [OF wf3 ld])
  have o5: "\<And>m. m \<noteq> ?Q \<Longrightarrow> col_values out m = col_values ?d4 m"
    unfolding out by (rule set_column_other [OF wf4 lq])
  have cK: "col_values out ?K = col_values d3 ?K" using o5 [of ?K] o4 [of ?K] by simp
  have cA: "col_values out ?A = col_values d3 ?A" using o5 [of ?A] o4 [of ?A] by simp
  have cT: "col_values out ?T = col_values d3 ?T" using o5 [of ?T] o4 [of ?T] by simp
  have cD: "col_values out ?D = dur"
    using o5 [of ?D] set_column_same [OF wf3 ld, of ?D] by simp
  have cQ: "col_values out ?Q = sq"
    unfolding out by (rule set_column_same [OF wf4 lq])
  have c3: "columns d3 = map rename_col (columns df)"
    using s1 s2 s3 by (simp add: rename_columns_def)
  have r3: "length (rows d3) = length (rows df)"
    using s1 s2 s3 by (simp add: rename_columns_def)
  have k2: "col_values d2 ?K = map ?f (col_values ?d0 ?K)" using s1 s2 by simp
  have a2': "col_values d2 ?A = map ?f (col_values ?d0 ?A)" using s1 s2 by simp
  have "take (length (columns d3)) (columns out) =
      take (length (columns d3)) (take (length (columns ?d4)) (columns out))"
    using set_column_columns [of d3 ?D dur] by (simp add: min_def)
  also have "take (length (columns ?d4)) (columns out) = columns ?d4"
    unfolding out using set_column_columns [of ?d4 ?Q sq] by simp
  also have "take (length (columns d3)) (columns ?d4) = columns d3"
    using set_column_columns [of d3 ?D dur] by simp
  finally show "take (length (columns df)) (columns out) = map rename_col (columns df)"
    by (simp add: c3)
  show "length (rows out) = length (rows df)" using w4 w5 r3 by (simp add: out)
  have mem3: "?K \<in> set (columns d3)" "?T \<in> set (columns d3)" using s3 by simp_all
  have l3: "length (rows out) = length (rows d3)" using w4 w5 by (simp add: out)
  show "length (col_values out ?K) = length (rows out)"
    using col_values_length [OF mem3(1)] by (simp add: cK l3)
  show "length (col_values out ?T) = length (rows out)"
    using col_values_length [OF mem3(2)] by (simp add: cT l3)
  have mK: "mset (col_values d3 ?K) = mset (col_values d2 ?K)"
    and mA: "mset (col_values d3 ?A) = mset (col_values d2 ?A)"
    and mT: "mset (col_values d3 ?T) = mset (col_values d2 ?T)"
    using s3 by simp_all
  have "list_all is_str (col_values d2 ?K)" using s3 by simp
  then show "list_all is_str (col_values out ?K)"
    using list_all_mset [OF mK, of is_str] by (simp add: cK)
  have "list_all is_str (col_values d2 ?A)" by (simp add: a2' list_all_iff)
  then show "list_all is_str (col_values out ?A)"
    using list_all_mset [OF mA, of is_str] by (simp add: cA)
  have "list_all is_datetime (col_values d2 ?T)" using s3 by simp
  then show "list_all is_datetime (col_values out ?T)"
    using list_all_mset [OF mT, of is_datetime] by (simp add: cT)
  show "mset (col_values out ?K) = mset (map ?f (col_values ?d0 ?K))"
    by (simp only: cK mK k2)
  show "mset (col_values out ?A) = mset (map ?f (col_values ?d0 ?A))"
    by (simp only: cA mA a2')
  show "sorted (map (\<lambda>(k, t). (str_val k, ts_ord t)) (zip (col_values out ?K) (col_values out ?T)))"
    using s3 by (simp only: cK cT)
  show "col_values out ?D = map (\<lambda>v. CFloat (fillna0 (total_seconds v)))
             (groupby_diff Map.empty (zip (col_values out ?K) (col_values out ?T)))"
    using s4 by (simp only: cD cK cT)
  show "col_values out ?Q = map (\<lambda>n. CInt (int n + 1)) (cumcount [] (col_values out ?K))"
    using s5 o4 [of ?K] by (simp add: cQ cK)
qed

lemma preprocess_data_Inr:
  "\<not> df_empty df \<Longrightarrow> preprocess_steps str df = Inr d \<Longrightarrow> preprocess_data str df = d"
  by (simp add: preprocess_data_def)

text \<open>
  The steps run through without an exception exactly on the frames described by
  \<open>preprocessable\<close>; on every other frame \<open>preprocess_data\<close> returns its argument.
\<close>

lemma get_column_mem:
  "n \<in> set (columns d) \<Longrightarrow> get_column d n = Inr (col_values d n)"
  using col_index_mem [of n "columns d"] by (auto simp: get_column_def col_values_def)

lemma astype_str_mem:
  "n \<in> set (columns d) \<Longrightarrow> \<exists>d'. astype_str str d n = Inr d'"
  by (simp add: astype_str_def bind_def get_column_mem)

lemma preprocess_steps_succeeds_iff:
  assumes wf: "wf_frame df"
  shows "(\<exists>d. preprocess_steps str df = Inr d) \<longleftrightarrow> preprocessable df"
proof
  let ?K = "''case:concept:name''" and ?A = "''concept:name''" and ?T = "''time:timestamp''"
  let ?D = "''duration_seconds''" and ?Q = "''activity_sequence''"
  let ?d0 = "rename_columns df"
  have wf0: "wf_frame ?d0" using wf by (simp add: rename_columns_def wf_frame_def)
  have c0: "columns ?d0 = map rename_col (columns df)" by (simp add: rename_columns_def)
  {
    assume "\<exists>d. preprocess_steps str df = Inr d"
    then obtain d1 d2 d3 where
      a1: "astype_str str ?d0 ?K = Inr d1" and
      a2: "astype_str str d1 ?A = Inr d2" and
      a3: "sort_values d2 ?K ?T = Inr d3"
      by (auto simp: preprocess_steps_def bind_def split: sum.splits)
    note s1 = astype_str_Inr [OF wf0 a1]
    then have wf1: "wf_frame d1" by simp
    note s2 = astype_str_Inr [OF wf1 a2]
    then have wf2: "wf_frame d2" by simp
    note s3 = sort_values_Inr [OF wf2 a3]
    have c2: "columns d2 = map rename_col (columns df)" using s1 s2 c0 by simp
    have t2: "col_values d2 ?T = col_values ?d0 ?T" using s1 s2 by simp
    show "preprocessable df"
      using s1 s2 s3 by (simp add: preprocessable_def Let_def c0 c2 t2)
  next
    assume p: "preprocessable df"
    then have mK: "?K \<in> set (columns ?d0)" and mA: "?A \<in> set (columns ?d0)"
      and mT: "?T \<in> set (columns ?d0)"
      and cnt: "count_list (columns ?d0) ?K \<le> 1" "count_list (columns ?d0) ?T \<le> 1"
      and dt: "list_all is_datetime (col_values ?d0 ?T)"
      by (simp_all add: preprocessable_def Let_def c0)
    from astype_str_mem [OF mK] obtain d1 where a1: "astype_str str ?d0 ?K = Inr d1" by blast
    note s1 = astype_str_Inr [OF wf0 a1]
    then have wf1: "wf_frame d1" and c1: "columns d1 = columns ?d0" by simp_all
    from astype_str_mem [of ?A d1] mA c1 obtain d2 where a2: "astype_str str d1 ?A = Inr d2"
      by auto
    note s2 = astype_str_Inr [OF wf1 a2]
    then have wf2: "wf_frame d2" and c2: "columns d2 = columns ?d0" using c1 by simp_all
    obtain i j where i: "col_index ?K (columns d2) = Some i" and j: "col_index ?T (columns d2) = Some j"
      using mK mT c2 col_index_mem by metis
    have k2: "list_all is_str (col_values d2 ?K)" using s1 s2 by (simp add: list_all_iff)
    have t2: "list_all is_datetime (col_values d2 ?T)" using s1 s2 dt by simp
    have chk: "list_all (\<lambda>r. is_str (r ! i) \<and> is_datetime (r ! j)) (rows d2)"
      using k2 t2 by (simp add: list_all_rows_cols col_values_Some [OF i] col_values_Some [OF j])
    have a3: "\<exists>d3. sort_values d2 ?K ?T = Inr d3"
      using i j chk cnt c2 by (simp add: sort_values_def)
    then obtain d3 where a3: "sort_values d2 ?K ?T = Inr d3" by blast
    note s3 = sort_values_Inr [OF wf2 a3]
    then have wf3: "wf_frame d3" and c3: "columns d3 = columns ?d0" using c2 by simp_all
    have "mset (col_values d3 ?T) = mset (col_values d2 ?T)" using s3 by simp
    then have t3: "list_all is_datetime (col_values d3 ?T)"
      using list_all_mset [of "col_values d3 ?T" "col_values d2 ?T" is_datetime] t2 by simp
    have a4: "\<exists>dur. duration_seconds d3 ?K ?T = Inr dur"
      using mK mT c3 t3 by (simp add: duration_seconds_def bind_def get_column_mem)
    then obtain dur where a4: "duration_seconds d3 ?K ?T = Inr dur" by blast
    have "?K \<in> set (columns (set_column d3 ?D dur))"
      using set_column_columns [of d3 ?D dur] mK c3 by auto
    then have a5: "\<exists>sq. activity_sequence (set_column d3 ?D dur) ?K = Inr sq"
      by (simp add: activity_sequence_def bind_def get_column_mem)
    then obtain sq where a5: "activity_sequence (set_column d3 ?D dur) ?K = Inr sq" by blast
    show "\<exists>d. preprocess_steps str df = Inr d"
      unfolding preprocess_steps_def by (simp only: a1 a2 a3 a4 a5 bind_def sum.case) blast
  }
qed

lemma preprocess_data_success:
  assumes "wf_frame df" and "\<not> df_empty df" and "preprocessable df"
  shows "preprocess_steps str df = Inr (preprocess_data str df)"
proof -
  from preprocess_steps_succeeds_iff [OF assms(1), of str] assms(3)
  obtain d where "preprocess_steps str df = Inr d" by blast
  then show ?thesis using assms(2) by (simp add: preprocess_data_def)
qed

lemma preprocess_data_failure:
  assumes "wf_frame df" and "\<not> preprocessable df"
  shows "preprocess_data str df = df"
proof (cases "preprocess_steps str df")
  case (Inl e)
  then show ?thesis by (simp add: preprocess_data_def)
next
  case (Inr d)
  then show ?thesis using preprocess_steps_succeeds_iff [OF assms(1), of str] assms(2) by blast
qed

lemma example_log_pre:
  "wf_frame example_log" "\<not> df_empty example_log" "preprocessable example_log"
  by code_simp+

lemma groupby_diff_seconds:
  assumes "length ks = n" and "length ts = n" and "i < n"
    and "ds = map (\<lambda>v. CFloat (fillna0 (total_seconds v))) (groupby_diff Map.empty (zip ks ts))"
  shows "((\<forall>j<i. ks ! j \<noteq> ks ! i) \<longrightarrow> ds ! i = CFloat 0) \<and>
         (j < i \<and> ks ! j = ks ! i \<and> (\<forall>l. j < l \<and> l < i \<longrightarrow> ks ! l \<noteq> ks ! i) \<longrightarrow>
            (\<forall>a b. ts ! j = CTime a \<and> ts ! i = CTime b \<longrightarrow>
               ds ! i = CFloat (of_int (b - a) / 1000000000)) \<and>
            (ts ! j = CNaT \<or> ts ! i = CNaT \<longrightarrow> ds ! i = CFloat 0))"
proof -
  define xs where "xs = zip ks ts"
  have i: "i < length xs" using assms(1-3) by (simp add: xs_def)
  have fst_xs: "\<And>m. m \<le> i \<Longrightarrow> fst (xs ! m) = ks ! m"
    and snd_xs: "\<And>m. m \<le> i \<Longrightarrow> snd (xs ! m) = ts ! m"
    using assms(1-3) by (simp_all add: xs_def)
  have dsi: "ds ! i = CFloat (fillna0 (total_seconds (groupby_diff Map.empty xs ! i)))"
    using i by (simp add: assms(4) xs_def groupby_diff_length)
  have first: "(\<forall>j<i. ks ! j \<noteq> ks ! i) \<longrightarrow> ds ! i = CFloat 0"
  proof
    assume h: "\<forall>j<i. ks ! j \<noteq> ks ! i"
    have "\<forall>j<i. fst (xs ! j) \<noteq> fst (xs ! i)"
    proof (intro allI impI)
      fix j assume "j < i"
      then show "fst (xs ! j) \<noteq> fst (xs ! i)" using h fst_xs [of j] fst_xs [of i] by simp
    qed
    from groupby_diff_first [OF i this, of Map.empty]
    have "groupby_diff Map.empty xs ! i = None" by simp
    then show "ds ! i = CFloat 0"
      using dsi by (simp add: total_seconds_def fillna0_def)
  qed
  have later: "j < i \<and> ks ! j = ks ! i \<and> (\<forall>l. j < l \<and> l < i \<longrightarrow> ks ! l \<noteq> ks ! i) \<longrightarrow>
      (\<forall>a b. ts ! j = CTime a \<and> ts ! i = CTime b \<longrightarrow>
         ds ! i = CFloat (of_int (b - a) / 1000000000)) \<and>
      (ts ! j = CNaT \<or> ts ! i = CNaT \<longrightarrow> ds ! i = CFloat 0)"
  proof
    assume h: "j < i \<and> ks ! j = ks ! i \<and> (\<forall>l. j < l \<and> l < i \<longrightarrow> ks ! l \<noteq> ks ! i)"
    then have ji: "j < i" by simp
    have e: "fst (xs ! j) = fst (xs ! i)" using h fst_xs [of j] fst_xs [of i] by simp
    have b: "\<forall>l. j < l \<and> l < i \<longrightarrow> fst (xs ! l) \<noteq> fst (xs ! i)"
    proof (intro allI impI)
      fix l assume l: "j < l \<and> l < i"
      then have "ks ! l \<noteq> ks ! i" using h by blast
      then show "fst (xs ! l) \<noteq> fst (xs ! i)" using l fst_xs [of l] fst_xs [of i] by simp
    qed
    from groupby_diff_next [OF ji i e b, of Map.empty]
    have g: "groupby_diff Map.empty xs ! i = td_diff (ts ! j) (ts ! i)"
      using snd_xs [of j] snd_xs [of i] ji by simp
    show "(\<forall>a b. ts ! j = CTime a \<and> ts ! i = CTime b \<longrightarrow>
         ds ! i = CFloat (of_int (b - a) / 1000000000)) \<and>
      (ts ! j = CNaT \<or> ts ! i = CNaT \<longrightarrow> ds ! i = CFloat 0)"
    proof (intro conjI allI impI)
      fix a b assume "ts ! j = CTime a \<and> ts ! i = CTime b"
      then show "ds ! i = CFloat (of_int (b - a) / 1000000000)"
        using dsi g by (simp add: total_seconds_def fillna0_def)
    next
      assume n: "ts ! j = CNaT \<or> ts ! i = CNaT"
      have "td_diff (ts ! j) (ts ! i) = None"
        using n by (cases "ts ! j"; cases "ts ! i") auto
      then show "ds ! i = CFloat 0"
        using dsi g by (simp add: total_seconds_def fillna0_def)
    qed
  qed
  show ?thesis using first later by blast
qed


lemma int_ts_log_out: "preprocess_data py_str int_ts_log = int_ts_log"
  by code_simp

lemma no_activity_log_out: "preprocess_data py_str no_activity_log = no_activity_log"
  by code_simp

lemma no_activity_log_pre:
  "wf_frame no_activity_log" "\<not> df_empty no_activity_log" "\<not> preprocessable no_activity_log"
  by code_simp+


text \<open>
  Claim C3, as amended. Take a non-empty frame on which no step of the preprocessing
  raises (\<open>preprocessable\<close>). In the frame \<open>preprocess_data\<close> returns, the
  \<open>activity_sequence\<close> values of the rows of any case \<open>c\<close>, read in the order of the
  frame, are \<open>1, 2, ..., n\<close>, with \<open>n\<close> the number of rows of that case.
\<close>

theorem activity_sequence_counts:
  assumes "wf_frame df" and "\<not> df_empty df" and "preprocessable df"
  shows "map snd (filter (\<lambda>p. fst p = c)
            (zip (col_values (preprocess_data str df) ''case:concept:name'')
                 (col_values (preprocess_data str df) ''activity_sequence''))) =
         map (\<lambda>m. CInt (int m))
           [1 ..< Suc (count_list (col_values (preprocess_data str df) ''case:concept:name'') c)]"
proof -
  let ?out = "preprocess_data str df"
  define ks where "ks = col_values ?out ''case:concept:name''"
  have sq: "col_values ?out ''activity_sequence'' = map (\<lambda>n. CInt (int n + 1)) (cumcount [] ks)"
    unfolding ks_def by (rule preprocess_steps_Inr(12) [OF assms(1) preprocess_data_success [OF assms]])
  have "map snd (filter (\<lambda>p. fst p = c) (zip ks (map (\<lambda>n. CInt (int n + 1)) (cumcount [] ks)))) =
        map (\<lambda>n. CInt (int n + 1)) [0 ..< count_list ks c]"
    using cumcount_filter [of c ks "[]"] by (simp add: filter_zip_map del: map_map)
  also have "\<dots> = map (\<lambda>m. CInt (int m)) (map Suc [0 ..< count_list ks c])"
    by (simp add: add.commute)
  also have "map Suc [0 ..< count_list ks c] = [1 ..< Suc (count_list ks c)]"
    by (simp only: map_Suc_upt One_nat_def)
  finally show ?thesis by (simp only: sq ks_def [symmetric])
qed


text \<open>
  On the example log, case \<open>7\<close> has three events, numbered 1, 2, 3.
\<close>

theorem activity_sequence_counts_witness:
  "wf_frame example_log \<and> \<not> df_empty example_log \<and> preprocessable example_log \<and>
   map snd (filter (\<lambda>p. fst p = CStr ''7'')
      (zip (col_values (preprocess_data py_str example_log) ''case:concept:name'')
           (col_values (preprocess_data py_str example_log) ''activity_sequence''))) =
     [CInt 1, CInt 2, CInt 3]"
proof -
  have n: "count_list (col_values (preprocess_data py_str example_log) ''case:concept:name'') (CStr ''7'') = 3"
    by (simp add: example_log_out col_values_def get_column_def)
  have u: "map (\<lambda>m. CInt (int m)) [1 ..< Suc 3] = [CInt 1, CInt 2, CInt 3]"
    by (simp add: upt_rec)
  have "map snd (filter (\<lambda>p. fst p = CStr ''7'')
      (zip (col_values (preprocess_data py_str example_log) ''case:concept:name'')
           (col_values (preprocess_data py_str example_log) ''activity_sequence''))) =
     [CInt 1, CInt 2, CInt 3]"
    using activity_sequence_counts [OF example_log_pre, of "CStr ''7''" py_str]
    by (simp only: n u)
  then show ?thesis by (intro conjI example_log_pre)
qed


text \<open>
  Claim C3 as stated, for every non-empty input, fails on a log without activity column:
  the cast of \<open>concept:name\<close> raises \<open>KeyError\<close>, the frame comes back as it was, and
  the two events of case \<open>a\<close> have no \<open>activity_sequence\<close> at all.
\<close>

theorem activity_sequence_missing_counterexample:
  "\<not> df_empty no_activity_log \<and>
   count_list (col_values (preprocess_data py_str no_activity_log) ''case_id'') (CStr ''a'') = 2 \<and>
   ''activity_sequence'' \<notin> set (columns (preprocess_data py_str no_activity_log)) \<and>
   col_values (preprocess_data py_str no_activity_log) ''activity_sequence'' = []"
  by (simp add: no_activity_log_out)
     (simp add: no_activity_log_def df_empty_def col_values_def get_column_def)

text \<open>
  Claim C2, as amended. Take a non-empty frame on which no step of the preprocessing
  raises (\<open>preprocessable\<close>), and the row at position \<open>i\<close> of the frame
  \<open>preprocess_data\<close> returns. If no earlier row belongs to the same case, its
  \<open>duration_seconds\<close> is 0. If row \<open>j\<close> is the closest earlier row of the same case,
  \<open>duration_seconds\<close> is the number of seconds from the timestamp of row \<open>j\<close> to that
  of row \<open>i\<close> (timestamps count nanoseconds).
\<close>

theorem duration_seconds_per_case:
  assumes "wf_frame df" and "\<not> df_empty df" and "preprocessable df"
    and "i < length (rows (preprocess_data str df))"
  shows "((\<forall>j<i. col_values (preprocess_data str df) ''case:concept:name'' ! j \<noteq>
                 col_values (preprocess_data str df) ''case:concept:name'' ! i) \<longrightarrow>
            col_values (preprocess_data str df) ''duration_seconds'' ! i = CFloat 0) \<and>
         (j < i \<and>
          col_values (preprocess_data str df) ''case:concept:name'' ! j =
            col_values (preprocess_data str df) ''case:concept:name'' ! i \<and>
          (\<forall>l. j < l \<and> l < i \<longrightarrow>
             col_values (preprocess_data str df) ''case:concept:name'' ! l \<noteq>
             col_values (preprocess_data str df) ''case:concept:name'' ! i) \<longrightarrow>
            (\<forall>a b. col_values (preprocess_data str df) ''time:timestamp'' ! j = CTime a \<and>
                   col_values (preprocess_data str df) ''time:timestamp'' ! i = CTime b \<longrightarrow>
               col_values (preprocess_data str df) ''duration_seconds'' ! i =
                 CFloat (of_int (b - a) / 1000000000)))"
proof -
  note ok = preprocess_data_success [OF assms(1-3), of str]
  note g = groupby_diff_seconds [OF preprocess_steps_Inr(3) [OF assms(1) ok]
      preprocess_steps_Inr(4) [OF assms(1) ok] assms(4) preprocess_steps_Inr(11) [OF assms(1) ok],
      of j]
  show ?thesis using g by blast
qed


text \<open>
  On the example log: the second row opens case \<open>7\<close> (duration 0), the third follows it
  three seconds later.
\<close>

theorem duration_seconds_per_case_witness:
  "wf_frame example_log \<and> \<not> df_empty example_log \<and> preprocessable example_log \<and>
   2 < length (rows (preprocess_data py_str example_log)) \<and>
   col_values (preprocess_data py_str example_log) ''case:concept:name'' ! 0 \<noteq>
     col_values (preprocess_data py_str example_log) ''case:concept:name'' ! 1 \<and>
   col_values (preprocess_data py_str example_log) ''duration_seconds'' ! 1 = CFloat 0 \<and>
   col_values (preprocess_data py_str example_log) ''case:concept:name'' ! 1 =
     col_values (preprocess_data py_str example_log) ''case:concept:name'' ! 2 \<and>
   col_values (preprocess_data py_str example_log) ''time:timestamp'' ! 1 = CTime 2000000000 \<and>
   col_values (preprocess_data py_str example_log) ''time:timestamp'' ! 2 = CTime 5000000000 \<and>
   col_values (preprocess_data py_str example_log) ''duration_seconds'' ! 2 = CFloat 3"
proof -
  let ?out = "preprocess_data py_str example_log"
  have len: "2 < length (rows ?out)" "1 < length (rows ?out)"
    by (simp_all add: example_log_out)
  have ks: "col_values ?out ''case:concept:name'' ! 0 \<noteq> col_values ?out ''case:concept:name'' ! 1"
    "col_values ?out ''case:concept:name'' ! 1 = col_values ?out ''case:concept:name'' ! 2"
    by (simp_all add: example_log_out col_values_def get_column_def)
  have ts: "col_values ?out ''time:timestamp'' ! 1 = CTime 2000000000"
    "col_values ?out ''time:timestamp'' ! 2 = CTime 5000000000"
    by (simp_all add: example_log_out col_values_def get_column_def)
  have first: "\<forall>j<(1::nat). col_values ?out ''case:concept:name'' ! j \<noteq>
      col_values ?out ''case:concept:name'' ! 1"
    using ks(1) by simp
  have between: "\<forall>l::nat. 1 < l \<and> l < 2 \<longrightarrow> col_values ?out ''case:concept:name'' ! l \<noteq>
      col_values ?out ''case:concept:name'' ! 2"
    by auto
  note at1 = duration_seconds_per_case [OF example_log_pre len(2), where j = 0, THEN conjunct1]
  have d1: "col_values ?out ''duration_seconds'' ! 1 = CFloat 0"
    by (rule mp [OF at1 first])
  have prem: "(1::nat) < 2 \<and>
      col_values ?out ''case:concept:name'' ! 1 = col_values ?out ''case:concept:name'' ! 2 \<and>
      (\<forall>l::nat. 1 < l \<and> l < 2 \<longrightarrow> col_values ?out ''case:concept:name'' ! l \<noteq>
        col_values ?out ''case:concept:name'' ! 2)"
    using ks(2) between by simp
  note at2 = duration_seconds_per_case [OF example_log_pre len(1), where j = 1, THEN conjunct2]
  note at2' = mp [OF at2 prem, THEN spec, THEN spec, THEN mp, of 2000000000 5000000000]
  have "col_values ?out ''duration_seconds'' ! 2 = CFloat (of_int (5000000000 - 2000000000) / 1000000000)"
    by (rule at2') (rule conjI [OF ts(1) ts(2)])
  then have d2: "col_values ?out ''duration_seconds'' ! 2 = CFloat 3" by simp
  show ?thesis by (intro conjI example_log_pre len(1) ks ts d1 d2)
qed


text \<open>
  Claim C2 as stated, for every non-empty input, fails on a log whose timestamps are
  integers: the steps raise, the frame comes back as it was, and its two events have no
  \<open>duration_seconds\<close> at all.
\<close>

theorem duration_seconds_missing_counterexample:
  "\<not> df_empty int_ts_log \<and>
   length (rows (preprocess_data py_str int_ts_log)) = 2 \<and>
   ''duration_seconds'' \<notin> set (columns (preprocess_data py_str int_ts_log)) \<and>
   col_values (preprocess_data py_str int_ts_log) ''duration_seconds'' = []"
  by (simp add: int_ts_log_out) (simp add: int_ts_log_def df_empty_def col_values_def get_column_def)


text \<open>
  Claim C1, as amended. Take a non-empty frame. If no step of the preprocessing raises
  (\<open>preprocessable\<close>: after renaming there is an activity column, exactly one case
  column and exactly one timestamp column, of dtype \<open>datetime64\<close>), then
  \<open>preprocess_data\<close> renames the columns by the dictionary (\<open>case_id\<close>,
  \<open>activity\<close>, \<open>timestamp\<close> and \<open>resource\<close> to their event-log names), replaces the
  values of the case and activity columns by their string rendering, and returns the rows
  in ascending order of the pair (case identifier, timestamp): pairs are compared
  lexicographically, case identifiers as strings, and \<open>NaT\<close> after every timestamp.
  Otherwise it returns the frame it was given.
\<close>

theorem preprocess_data_renames_and_sorts:
  assumes "wf_frame df" and "\<not> df_empty df"
  shows "(preprocessable df \<longrightarrow>
           take (length (columns df)) (columns (preprocess_data str df)) =
             map rename_col (columns df) \<and>
           rename_col ''case_id'' = ''case:concept:name'' \<and>
           rename_col ''activity'' = ''concept:name'' \<and>
           rename_col ''timestamp'' = ''time:timestamp'' \<and>
           rename_col ''resource'' = ''org:resource'' \<and>
           list_all is_str (col_values (preprocess_data str df) ''case:concept:name'') \<and>
           list_all is_str (col_values (preprocess_data str df) ''concept:name'') \<and>
           mset (col_values (preprocess_data str df) ''case:concept:name'') =
             mset (map (\<lambda>v. CStr (str v))
                    (col_values (rename_columns df) ''case:concept:name'')) \<and>
           mset (col_values (preprocess_data str df) ''concept:name'') =
             mset (map (\<lambda>v. CStr (str v)) (col_values (rename_columns df) ''concept:name'')) \<and>
           sorted (map (\<lambda>(k, t). (str_val k, ts_ord t))
             (zip (col_values (preprocess_data str df) ''case:concept:name'')
                  (col_values (preprocess_data str df) ''time:timestamp'')))) \<and>
         (\<not> preprocessable df \<longrightarrow> preprocess_data str df = df)"
proof (intro conjI impI)
  assume "\<not> preprocessable df"
  then show "preprocess_data str df = df" by (rule preprocess_data_failure [OF assms(1)])
next
  assume p: "preprocessable df"
  note ok = preprocess_data_success [OF assms p, of str]
  note f = preprocess_steps_Inr [OF assms(1) ok]
  show "take (length (columns df)) (columns (preprocess_data str df)) = map rename_col (columns df)"
    by (rule f(1))
  show "rename_col ''case_id'' = ''case:concept:name''" "rename_col ''activity'' = ''concept:name''"
    "rename_col ''timestamp'' = ''time:timestamp''" "rename_col ''resource'' = ''org:resource''"
    by (simp_all add: rename_col_def)
  show "list_all is_str (col_values (preprocess_data str df) ''case:concept:name'')" by (rule f(5))
  show "list_all is_str (col_values (preprocess_data str df) ''concept:name'')" by (rule f(6))
  show "mset (col_values (preprocess_data str df) ''case:concept:name'') =
      mset (map (\<lambda>v. CStr (str v)) (col_values (rename_columns df) ''case:concept:name''))"
    by (rule f(8))
  show "mset (col_values (preprocess_data str df) ''concept:name'') =
      mset (map (\<lambda>v. CStr (str v)) (col_values (rename_columns df) ''concept:name''))"
    by (rule f(9))
  show "sorted (map (\<lambda>(k, t). (str_val k, ts_ord t))
      (zip (col_values (preprocess_data str df) ''case:concept:name'')
           (col_values (preprocess_data str df) ''time:timestamp'')))"
    by (rule f(10))
qed

text \<open>
  The example log after preprocessing: case \<open>10\<close> sorts before case \<open>7\<close>, as strings
  do. The log without activity column comes back unchanged.
\<close>

theorem preprocess_data_renames_and_sorts_witness:
  "wf_frame example_log \<and> \<not> df_empty example_log \<and> preprocessable example_log \<and>
   columns (preprocess_data py_str example_log) =
     [''case:concept:name'', ''concept:name'', ''time:timestamp'', ''org:resource'',
      ''duration_seconds'', ''activity_sequence''] \<and>
   col_values (preprocess_data py_str example_log) ''case:concept:name'' =
     [CStr ''10'', CStr ''7'', CStr ''7'', CStr ''7''] \<and>
   col_values (preprocess_data py_str example_log) ''time:timestamp'' =
     [CTime 1000000000, CTime 2000000000, CTime 5000000000, CNaT] \<and>
   sorted (map (\<lambda>(k, t). (str_val k, ts_ord t))
     (zip (col_values (preprocess_data py_str example_log) ''case:concept:name'')
          (col_values (preprocess_data py_str example_log) ''time:timestamp''))) \<and>
   wf_frame no_activity_log \<and> \<not> df_empty no_activity_log \<and> \<not> preprocessable no_activity_log \<and>
   preprocess_data py_str no_activity_log = no_activity_log"
proof -
  have v: "col_values (preprocess_data py_str example_log) ''case:concept:name'' =
     [CStr ''10'', CStr ''7'', CStr ''7'', CStr ''7'']"
    "col_values (preprocess_data py_str example_log) ''time:timestamp'' =
     [CTime 1000000000, CTime 2000000000, CTime 5000000000, CNaT]"
    "columns (preprocess_data py_str example_log) =
     [''case:concept:name'', ''concept:name'', ''time:timestamp'', ''org:resource'',
      ''duration_seconds'', ''activity_sequence'']"
    by (simp_all add: example_log_out col_values_def get_column_def)
  note t = preprocess_data_renames_and_sorts [OF example_log_pre(1,2), of py_str, THEN conjunct1, THEN mp,
      OF example_log_pre(3)]
  have s: "sorted (map (\<lambda>(k, t). (str_val k, ts_ord t))
     (zip (col_values (preprocess_data py_str example_log) ''case:concept:name'')
          (col_values (preprocess_data py_str example_log) ''time:timestamp'')))"
    using t by blast
  note u = preprocess_data_renames_and_sorts [OF no_activity_log_pre(1,2), of py_str, THEN conjunct2, THEN mp,
      OF no_activity_log_pre(3)]
  show ?thesis by (intro conjI example_log_pre no_activity_log_pre v s u)
qed


text \<open>
  Claim C1 as stated, for every non-empty frame with the four columns, fails on a log
  whose timestamps are integers: the \<open>.dt\<close> accessor raises, and the frame comes back
  with its columns not renamed and its rows not sorted.
\<close>

theorem preprocess_data_unrenamed_counterexample:
  "\<not> df_empty int_ts_log \<and>
   columns int_ts_log = [''case_id'', ''activity'', ''timestamp'', ''resource''] \<and>
   columns (preprocess_data py_str int_ts_log) = [''case_id'', ''activity'', ''timestamp'', ''resource''] \<and>
   col_values (preprocess_data py_str int_ts_log) ''case_id'' = [CStr ''b'', CStr ''a'']"
  by (simp add: int_ts_log_out) (simp add: int_ts_log_def df_empty_def col_values_def get_column_def)


lemma str_cast_update:
  assumes d: "distinct cols" and n: "length r = length cols"
    and ic: "col_index ''case_id'' cols = Some ic" and ia: "col_index ''activity'' cols = Some ia"
  shows "r[ic := CStr (str (r ! ic)), ia := CStr (str (r ! ia))] = str_cast str cols r"
proof (rule nth_equalityI)
  show "length (r[ic := CStr (str (r ! ic)), ia := CStr (str (r ! ia))]) = length (str_cast str cols r)"
    using n by (simp add: str_cast_def)
next
  fix i assume "i < length (r[ic := CStr (str (r ! ic)), ia := CStr (str (r ! ia))])"
  then have i: "i < length cols" using n by simp
  have c: "ic < length cols" "cols ! ic = ''case_id''" "ia < length cols" "cols ! ia = ''activity''"
    using col_index_Some [OF ic] col_index_Some [OF ia] by simp_all
  have e1: "cols ! i = ''case_id'' \<longleftrightarrow> i = ic"
    using d i c nth_eq_iff_index_eq by metis
  have e2: "cols ! i = ''activity'' \<longleftrightarrow> i = ia"
    using d i c nth_eq_iff_index_eq by metis
  have "ic \<noteq> ia" using c by auto
  then show "r[ic := CStr (str (r ! ic)), ia := CStr (str (r ! ia))] ! i = str_cast str cols r ! i"
    using i n c e1 e2 by (auto simp: str_cast_def nth_list_update)
qed

text \<open>
  Claim C10, as amended. For a non-empty event frame, \<open>preprocess_data\<close> returns as
  many rows as it was given; the columns are the renamed input columns followed by
  \<open>duration_seconds\<close> and \<open>activity_sequence\<close>; and the rows, cut back to the input
  columns, are the input rows up to their order, with the values of the case and activity
  columns replaced by their string rendering and every other value unchanged.
\<close>

theorem preprocess_data_frame:
  assumes "event_frame df"
  shows "length (rows (preprocess_data str df)) = length (rows df) \<and>
         columns (preprocess_data str df) =
           map rename_col (columns df) @ [''duration_seconds'', ''activity_sequence''] \<and>
         mset (map (take (length (columns df))) (rows (preprocess_data str df))) =
           mset (map (str_cast str (columns df)) (rows df))"
proof -
  let ?out = "preprocess_data str df"
  from preprocess_data_shape [OF assms, of str] obtain ic ia it S where
    ic: "col_index ''case_id'' (columns df) = Some ic" and
    ia: "col_index ''activity'' (columns df) = Some ia" and
    S: "S = sort_key (\<lambda>r. (str_val (r ! ic), ts_ord (r ! it)))
           (map (\<lambda>r. r[ic := CStr (str (r ! ic)), ia := CStr (str (r ! ia))]) (rows df))" and
    cols: "columns ?out = map rename_col (columns df) @ [''duration_seconds'', ''activity_sequence'']" and
    tk: "map (take (length (columns df))) (rows ?out) = S"
    by auto
  from assms have wf: "\<forall>r\<in>set (rows df). length r = length (columns df)"
    and d: "distinct (columns df)"
    by (auto simp: event_frame_def wf_frame_def list_all_iff distinct_map)
  have m: "map (\<lambda>r. r[ic := CStr (str (r ! ic)), ia := CStr (str (r ! ia))]) (rows df) =
      map (str_cast str (columns df)) (rows df)"
  proof (rule map_cong [OF refl])
    fix r assume "r \<in> set (rows df)"
    then have "length r = length (columns df)" using wf by blast
    then show "r[ic := CStr (str (r ! ic)), ia := CStr (str (r ! ia))] = str_cast str (columns df) r"
      by (rule str_cast_update [OF d _ ic ia])
  qed
  have "mset S = mset (map (str_cast str (columns df)) (rows df))"
    unfolding S m by simp
  moreover have "length (rows ?out) = length (rows df)"
  proof -
    have "length (rows ?out) = length S" using arg_cong [OF tk, of length] by simp
    also have "\<dots> = length (rows df)" unfolding S by simp
    finally show ?thesis .
  qed
  ultimately show ?thesis using cols tk by simp
qed

text \<open>The example log keeps its four rows.\<close>

theorem preprocess_data_frame_witness:
  "event_frame example_log \<and>
   length (rows (preprocess_data py_str example_log)) = 4 \<and>
   mset (map (take 4) (rows (preprocess_data py_str example_log))) =
     mset (map (str_cast py_str (columns example_log)) (rows example_log))"
proof -
  have c: "length (columns example_log) = 4" "length (rows example_log) = 4"
    by (simp_all add: example_log_def)
  from preprocess_data_frame [OF example_log_ok, of py_str]
  have "length (rows (preprocess_data py_str example_log)) = 4 \<and>
    mset (map (take 4) (rows (preprocess_data py_str example_log))) =
     mset (map (str_cast py_str (columns example_log)) (rows example_log))"
    by (simp only: c)
  then show ?thesis using example_log_ok by blast
qed

text \<open>
  Claim C10 as stated, with every value of the input columns unchanged, fails on the
  example log: its case identifiers are the integers 7 and 10, and come back as the
  strings \<open>''7''\<close> and \<open>''10''\<close>.
\<close>

theorem preprocess_data_values_unchanged_counterexample:
  "\<not> (mset (map (take 4) (rows (preprocess_data py_str example_log))) = mset (rows example_log))"
proof
  assume "mset (map (take 4) (rows (preprocess_data py_str example_log))) = mset (rows example_log)"
  then have "set_mset (mset (map (take 4) (rows (preprocess_data py_str example_log)))) =
      set_mset (mset (rows example_log))"
    by (rule arg_cong)
  then have "set (map (take 4) (rows (preprocess_data py_str example_log))) = set (rows example_log)"
    by (simp only: set_mset_mset)
  moreover have "[CInt 7, CStr ''b'', CTime 5000000000, CStr ''r''] \<in> set (rows example_log)"
    by (simp add: example_log_def)
  ultimately have "[CInt 7, CStr ''b'', CTime 5000000000, CStr ''r'']
      \<in> set (map (take 4) (rows (preprocess_data py_str example_log)))"
    by simp
  then show False by (simp add: example_log_out)
qed

section \<open>Properties of the conformance figures\<close>

lemma fitness_values_Inr: "fitness_values ts = Inr fs \<longleftrightarrow> ts = map Some fs"
proof (induction ts arbitrary: fs)
  case Nil
  then show ?case by auto
next
  case (Cons t ts)
  show ?case
  proof (cases t)
    case None
    then show ?thesis by auto
  next
    case (Some f)
    show ?thesis
    proof (cases "fitness_values ts")
      case (Inl e)
      then have "\<And>gs. ts \<noteq> map Some gs" using Cons.IH by (metis sum.distinct(1))
      then show ?thesis using Some Inl by (auto simp: bind_def)
    next
      case (Inr gs)
      then have "ts = map Some gs" using Cons.IH by simp
      then show ?thesis using Some Inr by (auto simp: bind_def)
    qed
  qed
qed



section \<open>Properties of authenticate\<close>

lemma authenticate_cases:
  "authenticate reply c =
     (case reply of
        PostRaises \<Rightarrow> (False, c)
      | Reply code None \<Rightarrow> (False, c)
      | Reply code (Some (JObj kv)) \<Rightarrow>
          if code = 200 \<and> map_of kv ''status'' = Some (JStr ''1'') then
            (case map_of kv ''responseBody'' of
               None \<Rightarrow> (True, c\<lparr>session_id := JNull\<rparr>)
             | Some (JObj rb) \<Rightarrow>
                 (True, c\<lparr>session_id := (case map_of rb ''jsessionid'' of None \<Rightarrow> JNull | Some v \<Rightarrow> v)\<rparr>)
             | Some _ \<Rightarrow> (False, c))
          else (False, c)
      | Reply code (Some _) \<Rightarrow> (False, c))"
  by (simp add: authenticate_def py_get_def bind_def split: http_reply.splits option.splits json.splits)

text \<open>
  Claim C4, as amended. \<open>authenticate\<close> returns \<open>True\<close> exactly when the login request
  is answered with status 200 and a JSON object whose \<open>status\<close> is the string \<open>"1"\<close>
  and whose \<open>responseBody\<close> is absent or an object; it then stores the \<open>jsessionid\<close> of
  the response body (\<open>None\<close> when there is none) as the session id. In every other
  case, a raised exception included, it returns \<open>False\<close> and leaves the collector as it
  was. No exception leaves the function: the result type has none.
\<close>

theorem authenticate_result:
  "(login_accepted reply sid \<longrightarrow> authenticate reply c = (True, c\<lparr>session_id := sid\<rparr>)) \<and>
   ((\<forall>v. \<not> login_accepted reply v) \<longrightarrow> authenticate reply c = (False, c))"
proof (intro conjI impI)
  assume "login_accepted reply sid"
  then obtain kv where r: "reply = Reply 200 (Some (JObj kv))"
    and st: "map_of kv ''status'' = Some (JStr ''1'')"
    and rb: "case map_of kv ''responseBody'' of
           None \<Rightarrow> sid = JNull
         | Some (JObj rb) \<Rightarrow> sid = (case map_of rb ''jsessionid'' of None \<Rightarrow> JNull | Some v \<Rightarrow> v)
         | Some _ \<Rightarrow> False"
    unfolding login_accepted_def by blast
  show "authenticate reply c = (True, c\<lparr>session_id := sid\<rparr>)"
  proof (cases "map_of kv ''responseBody''")
    case None
    then show ?thesis using r st rb by (simp add: authenticate_cases)
  next
    case (Some b)
    then show ?thesis using r st rb by (cases b) (simp_all add: authenticate_cases)
  qed
next
  assume no: "\<forall>v. \<not> login_accepted reply v"
  show "authenticate reply c = (False, c)"
  proof (cases reply)
    case PostRaises
    then show ?thesis by (simp add: authenticate_cases)
  next
    case (Reply code body)
    show ?thesis
    proof (cases body)
      case None
      then show ?thesis using Reply by (simp add: authenticate_cases)
    next
      case (Some result)
      show ?thesis
      proof (cases result)
        case (JObj kv)
        show ?thesis
        proof (cases "code = 200 \<and> map_of kv ''status'' = Some (JStr ''1'')")
          case False
          then show ?thesis using Reply Some JObj by (auto simp: authenticate_cases)
        next
          case True
          then have r: "reply = Reply 200 (Some (JObj kv))" using Reply Some JObj by simp
          show ?thesis
          proof (cases "map_of kv ''responseBody''")
            case None
            then have "login_accepted reply JNull"
              using r True by (simp add: login_accepted_def)
            then show ?thesis using no by blast
          next
            case rb: (Some b)
            show ?thesis
            proof (cases b)
              case (JObj ob)
              then have "login_accepted reply
                  (case map_of ob ''jsessionid'' of None \<Rightarrow> JNull | Some v \<Rightarrow> v)"
                using r True rb by (simp add: login_accepted_def)
              then show ?thesis using no by blast
            qed (use r True rb in \<open>simp_all add: authenticate_cases\<close>)
          qed
        qed
      qed (use Reply Some in \<open>simp_all add: authenticate_cases\<close>)
    qed
  qed
qed

text \<open>A login that is accepted, and a reply with status 401.\<close>

theorem authenticate_result_witness:
  "login_accepted login_ok_reply (JStr ''abc'') \<and>
   authenticate login_ok_reply example_collector = (True, example_collector\<lparr>session_id := JStr ''abc''\<rparr>) \<and>
   (\<forall>v. \<not> login_accepted (Reply 401 None) v) \<and>
   authenticate (Reply 401 None) example_collector = (False, example_collector)"
proof -
  have a: "login_accepted login_ok_reply (JStr ''abc'')"
    by (simp add: login_accepted_def login_ok_reply_def)
  have b: "\<forall>v. \<not> login_accepted (Reply 401 None) v"
    by (simp add: login_accepted_def)
  note t1 = authenticate_result [of login_ok_reply "JStr ''abc''" example_collector, THEN conjunct1, THEN mp, OF a]
  note t2 = authenticate_result [of "Reply 401 None" JNull example_collector, THEN conjunct2, THEN mp, OF b]
  show ?thesis by (intro conjI a b t1 t2)
qed

text \<open>
  Claim C4 as stated fails on a reply with status 200 and \<open>status\<close> \<open>"1"\<close> whose
  \<open>responseBody\<close> is \<open>null\<close>: \<open>.get\<close> on \<open>None\<close> raises, and the result is \<open>False\<close>.
\<close>

theorem authenticate_status_only_counterexample:
  "login_null_body_reply =
     Reply 200 (Some (JObj [(''status'', JStr ''1''), (''responseBody'', JNull)])) \<and>
   authenticate login_null_body_reply example_collector = (False, example_collector)"
  by (simp add: login_null_body_reply_def authenticate_def py_get_def bind_def)

section \<open>Properties of the web application\<close>

lemma cfg_get_eq: "c1 k = c2 k \<Longrightarrow> cfg_get c1 k d = cfg_get c2 k d"
  by (simp add: cfg_get_def)

text \<open>
  Claim C9. Two configurations that differ only in the values of \<open>app_key\<close>,
  \<open>sankhya_id\<close>, \<open>password\<close> and \<open>token\<close>, set in both, get the same response from
  \<open>GET /api/sankhya-config\<close>. The response has the five keys below, and each entry
  after \<open>base_url\<close> is a boolean.
\<close>

theorem sankhya_config_get_hides_credentials:
  assumes "differ_in_credentials_only c1 c2"
  shows "sankhya_config_get c1 = sankhya_config_get c2 \<and>
         map fst (sankhya_config_get c1) =
           [''base_url'', ''has_app_key'', ''has_sankhya_id'', ''has_password'', ''has_token''] \<and>
         list_all (\<lambda>e. \<exists>b. snd e = JBool b) (tl (sankhya_config_get c1))"
proof -
  from assms have same: "c1 ''base_url'' = c2 ''base_url''"
    and set: "\<And>k. k \<in> set credential_keys \<Longrightarrow>
        py_bool (cfg_get c1 k JNull) \<and> py_bool (cfg_get c2 k JNull)"
    by (auto simp: differ_in_credentials_only_def credential_keys_def)
  have "py_bool (cfg_get c1 ''app_key'' JNull) = py_bool (cfg_get c2 ''app_key'' JNull)"
    "py_bool (cfg_get c1 ''sankhya_id'' JNull) = py_bool (cfg_get c2 ''sankhya_id'' JNull)"
    "py_bool (cfg_get c1 ''password'' JNull) = py_bool (cfg_get c2 ''password'' JNull)"
    "py_bool (cfg_get c1 ''token'' JNull) = py_bool (cfg_get c2 ''token'' JNull)"
    using set by (simp_all add: credential_keys_def)
  then show ?thesis
    using cfg_get_eq [of c1 "''base_url''" c2, OF same] by (simp add: sankhya_config_get_def)
qed

text \<open>Two configurations with different application keys and passwords.\<close>

theorem sankhya_config_get_hides_credentials_witness:
  "differ_in_credentials_only (example_config ''key-one'' ''hunter2'') (example_config ''key-two'' ''swordfish'') \<and>
   sankhya_config_get (example_config ''key-one'' ''hunter2'') =
     sankhya_config_get (example_config ''key-two'' ''swordfish'')"
proof -
  have d: "differ_in_credentials_only (example_config ''key-one'' ''hunter2'')
      (example_config ''key-two'' ''swordfish'')"
    by (simp add: differ_in_credentials_only_def example_config_def credential_keys_def cfg_get_def)
  note t = sankhya_config_get_hides_credentials [OF d, THEN conjunct1]
  show ?thesis by (intro conjI d t)
qed

text \<open>
  Claim C6, as amended. The views declared by the application are exactly five: four
  that answer with JSON (\<open>/api/test-connection\<close>, \<open>/api/analyze-sankhya\<close>,
  \<open>/api/sankhya-config\<close>, \<open>/api/database-setup\<close>) and the root \<open>/\<close>, which renders
  an HTML page. The URL map holds one more route, the static-file route of the framework.
\<close>

theorem url_map_routes:
  "map rule (filter (\<lambda>r. serves r = Json) url_map) =
     [''/api/test-connection'', ''/api/analyze-sankhya'', ''/api/sankhya-config'',
      ''/api/database-setup''] \<and>
   map rule (filter (\<lambda>r. serves r = Html) url_map) = [''/''] \<and>
   map rule (filter (\<lambda>r. serves r = StaticFile) url_map) = [''/static/<path:filename>''] \<and>
   length url_map = 6 \<and>
   map rule view_routes =
     [''/'', ''/api/test-connection'', ''/api/analyze-sankhya'', ''/api/sankhya-config'',
      ''/api/database-setup'']"
  by (simp add: url_map_def flask_default_routes_def view_routes_def)

text \<open>
  Claim C6 as stated, with no route besides the five, fails: \<open>/static/<path:filename>\<close>
  is a route of the application.
\<close>

theorem url_map_only_views_counterexample:
  "\<not> (set (map rule url_map) =
        {''/'', ''/api/test-connection'', ''/api/analyze-sankhya'', ''/api/sankhya-config'',
         ''/api/database-setup''})"
proof
  assume "set (map rule url_map) =
        {''/'', ''/api/test-connection'', ''/api/analyze-sankhya'', ''/api/sankhya-config'',
         ''/api/database-setup''}"
  moreover have "''/static/<path:filename>'' \<in> set (map rule url_map)"
    by (simp add: url_map_def flask_default_routes_def)
  ultimately have "''/static/<path:filename>'' \<in>
      {''/'', ''/api/test-connection'', ''/api/analyze-sankhya'', ''/api/sankhya-config'',
         ''/api/database-setup''}" by simp
  then show False by simp
qed

section \<open>Properties of collect\_process\_events\<close>

lemma row_width_rect:
  "list_all (\<lambda>r. length r = n) rs \<Longrightarrow> row_width rs = (if rs = [] then 0 else n)"
  by (induction rs) (auto simp: row_width_def)

lemma pad_full: "length r = n \<Longrightarrow> pad n r = r"
  by (simp add: pad_def)

lemma DataFrame_rect:
  assumes "list_all (\<lambda>r. length r = length names) rs"
  shows "DataFrame rs names = Inr \<lparr>columns = names, rows = rs\<rparr>"
proof (cases "rs = []")
  case True
  then show ?thesis by (simp add: DataFrame_def)
next
  case False
  have "map (pad (length names)) rs = rs"
    using assms by (induction rs) (auto simp: pad_full)
  then show ?thesis using False row_width_rect [OF assms] by (simp add: DataFrame_def)
qed

lemma is_datetime_ts_cell: "list_all is_datetime (map ts_cell ts)"
proof (induction ts)
  case Nil
  then show ?case by simp
next
  case (Cons t ts)
  then show ?case by (cases t) auto
qed

lemma collect_steps_rect:
  assumes q: "execute_query reply = PyDict r"
    and rs: "result_rows r = Some rs"
    and fn: "field_names (case result_fields r of None \<Rightarrow> [] | Some fs \<Rightarrow> fs) = Inr names"
    and rect: "list_all (\<lambda>row. length row = length names) rs"
    and cid: "''case_id'' \<in> set names"
  shows "collect_process_events to_datetime reply =
     (case convert_timestamp to_datetime \<lparr>columns = names, rows = rs\<rparr> of
        Inl e \<Rightarrow> DataFrame_empty | Inr d \<Rightarrow> d)"
proof (cases "convert_timestamp to_datetime \<lparr>columns = names, rows = rs\<rparr>")
  case (Inl e)
  then show ?thesis
    using q rs fn DataFrame_rect [OF rect]
    by (simp add: collect_process_events_def collect_steps_def bind_def)
next
  case (Inr d)
  then have "columns d = names"
    using cid col_index_mem [of "''timestamp''" names]
    by (auto simp: convert_timestamp_def set_column_def split: if_splits option.splits)
  then obtain i where "col_index ''case_id'' (columns d) = Some i"
    using cid col_index_mem by blast
  then have "\<exists>ids. get_column d ''case_id'' = Inr ids" by (simp add: get_column_def)
  then show ?thesis
    using q rs fn DataFrame_rect [OF rect] Inr
    by (auto simp: collect_process_events_def collect_steps_def bind_def)
qed

text \<open>
  Claim C5, as amended. \<open>collect_process_events\<close> returns the empty frame whenever the
  query fails or raises (its result is \<open>None\<close>), or its result has no \<open>rows\<close> entry.
  Otherwise, when every field has a name, every row is as long as the list of fields,
  the names are distinct and \<open>case_id\<close> is one of them, the frame has exactly the field
  names as columns, in order, and holds the rows of the result, with the \<open>timestamp\<close>
  column, when there is one, replaced by what \<open>pd.to_datetime\<close> makes of it, a column
  of timestamps. When \<open>pd.to_datetime\<close> raises, a field has no name, or the rows do not
  fit the fields, the handler returns the empty frame.
\<close>

theorem collect_process_events_result:
  "((execute_query reply = PyNone \<or> execute_query reply = PyOther \<or>
     (\<exists>r. execute_query reply = PyDict r \<and> result_rows r = None)) \<longrightarrow>
      collect_process_events to_datetime reply = DataFrame_empty) \<and>
   (execute_query reply = PyDict r \<and> result_rows r = Some rs \<and>
    field_names (case result_fields r of None \<Rightarrow> [] | Some fs \<Rightarrow> fs) = Inr names \<and>
    list_all (\<lambda>row. length row = length names) rs \<and> distinct names \<and> ''case_id'' \<in> set names \<longrightarrow>
      (''timestamp'' \<notin> set names \<longrightarrow>
         collect_process_events to_datetime reply = \<lparr>columns = names, rows = rs\<rparr>) \<and>
      (''timestamp'' \<in> set names \<and>
       to_datetime (col_values \<lparr>columns = names, rows = rs\<rparr> ''timestamp'') = Some ts \<and>
       length ts = length rs \<longrightarrow>
         collect_process_events to_datetime reply =
           set_column \<lparr>columns = names, rows = rs\<rparr> ''timestamp'' (map ts_cell ts) \<and>
         columns (collect_process_events to_datetime reply) = names \<and>
         length (rows (collect_process_events to_datetime reply)) = length rs \<and>
         col_values (collect_process_events to_datetime reply) ''timestamp'' = map ts_cell ts \<and>
         list_all is_datetime (col_values (collect_process_events to_datetime reply) ''timestamp'') \<and>
         (\<forall>n. n \<noteq> ''timestamp'' \<longrightarrow>
            col_values (collect_process_events to_datetime reply) n =
            col_values \<lparr>columns = names, rows = rs\<rparr> n)) \<and>
      (''timestamp'' \<in> set names \<and>
       to_datetime (col_values \<lparr>columns = names, rows = rs\<rparr> ''timestamp'') = None \<longrightarrow>
         collect_process_events to_datetime reply = DataFrame_empty)) \<and>
   (execute_query reply = PyDict r \<and> result_rows r = Some rs \<and>
    (field_names (case result_fields r of None \<Rightarrow> [] | Some fs \<Rightarrow> fs) = Inl e \<or>
     (\<exists>cols. field_names (case result_fields r of None \<Rightarrow> [] | Some fs \<Rightarrow> fs) = Inr cols \<and>
        DataFrame rs cols = Inl e)) \<longrightarrow>
      collect_process_events to_datetime reply = DataFrame_empty)"
proof (intro conjI impI)
  assume "execute_query reply = PyNone \<or> execute_query reply = PyOther \<or>
     (\<exists>r. execute_query reply = PyDict r \<and> result_rows r = None)"
  then show "collect_process_events to_datetime reply = DataFrame_empty"
    by (auto simp: collect_process_events_def collect_steps_def)
next
  assume a: "execute_query reply = PyDict r \<and> result_rows r = Some rs \<and>
    (field_names (case result_fields r of None \<Rightarrow> [] | Some fs \<Rightarrow> fs) = Inl e \<or>
     (\<exists>cols. field_names (case result_fields r of None \<Rightarrow> [] | Some fs \<Rightarrow> fs) = Inr cols \<and>
        DataFrame rs cols = Inl e))"
  then show "collect_process_events to_datetime reply = DataFrame_empty"
    by (auto simp: collect_process_events_def collect_steps_def bind_def)
next
  assume a: "execute_query reply = PyDict r \<and> result_rows r = Some rs \<and>
    field_names (case result_fields r of None \<Rightarrow> [] | Some fs \<Rightarrow> fs) = Inr names \<and>
    list_all (\<lambda>row. length row = length names) rs \<and> distinct names \<and> ''case_id'' \<in> set names"
  then have rect: "list_all (\<lambda>row. length row = length names) rs" and d: "distinct names" by simp_all
  from a have c: "collect_process_events to_datetime reply =
     (case convert_timestamp to_datetime \<lparr>columns = names, rows = rs\<rparr> of
        Inl e \<Rightarrow> DataFrame_empty | Inr d \<Rightarrow> d)"
    using collect_steps_rect [of reply r rs names to_datetime] by blast
  let ?d = "\<lparr>columns = names, rows = rs\<rparr>"
  let ?out = "collect_process_events to_datetime reply"
  {
    assume "''timestamp'' \<notin> set names"
    then show "?out = ?d" using c by (simp add: convert_timestamp_def)
  next
    assume "''timestamp'' \<in> set names \<and> to_datetime (col_values ?d ''timestamp'') = None"
    then show "?out = DataFrame_empty" using c by (simp add: convert_timestamp_def)
  next
    assume b: "''timestamp'' \<in> set names \<and> to_datetime (col_values ?d ''timestamp'') = Some ts \<and>
       length ts = length rs"
    then obtain it where it: "col_index ''timestamp'' names = Some it"
      using col_index_mem by blast
    have itn: "it < length names" "names ! it = ''timestamp''"
      using col_index_Some [OF it] by simp_all
    have cnt: "\<not> 1 < count_list names ''timestamp''"
      using distinct_count_list [OF d, of "''timestamp''"] by simp
    have out: "?out = set_column ?d ''timestamp'' (map ts_cell ts)"
      using c b cnt by (simp add: convert_timestamp_def)
    have sc: "set_column ?d ''timestamp'' (map ts_cell ts) =
        \<lparr>columns = names, rows = map2 (\<lambda>r v. r[it := v]) rs (map ts_cell ts)\<rparr>"
      using it by (simp add: set_column_def)
    have len: "length rs = length (map ts_cell ts)" using b by simp
    have wide: "\<forall>r\<in>set rs. it < length r" using rect itn by (simp add: list_all_iff)
    have tcol: "col_values ?out ''timestamp'' = map ts_cell ts"
      using it update_col_same [OF len wide]
      by (simp add: out sc col_values_def get_column_def del: map_map)
    have other: "\<forall>n. n \<noteq> ''timestamp'' \<longrightarrow> col_values ?out n = col_values ?d n"
    proof (intro allI impI)
      fix n :: string assume n: "n \<noteq> ''timestamp''"
      show "col_values ?out n = col_values ?d n"
      proof (cases "col_index n names")
        case None
        then show ?thesis by (simp add: out sc col_values_def get_column_def)
      next
        case (Some j)
        then have "j \<noteq> it" using col_index_Some [OF Some] itn n by auto
        then show ?thesis using Some update_col_other [OF len]
          by (simp add: out sc col_values_def get_column_def del: map_map)
      qed
    qed
    show "?out = set_column ?d ''timestamp'' (map ts_cell ts)" by (rule out)
    show "columns ?out = names" by (simp add: out sc)
    show "length (rows ?out) = length rs" using len by (simp add: out sc)
    show "col_values ?out ''timestamp'' = map ts_cell ts" by (rule tcol)
    show "list_all is_datetime (col_values ?out ''timestamp'')"
      unfolding tcol by (rule is_datetime_ts_cell)
    show "\<forall>n. n \<noteq> ''timestamp'' \<longrightarrow> col_values ?out n = col_values ?d n" by (rule other)
  }
qed

text \<open>A failed query, and a query that returns one event.\<close>

theorem collect_process_events_result_witness:
  "execute_query (QueryReply 500 None) = PyNone \<and>
   collect_process_events to_datetime_ns (QueryReply 500 None) = DataFrame_empty \<and>
   execute_query query_ok_reply =
     PyDict \<lparr>result_fields = Some three_fields,
             result_rows = Some [[CInt 7, CStr ''a'', CInt 2000000000]]\<rparr> \<and>
   field_names three_fields = Inr [''case_id'', ''activity'', ''timestamp''] \<and>
   to_datetime_ns [CInt 2000000000] = Some [Some 2000000000] \<and>
   collect_process_events to_datetime_ns query_ok_reply =
     \<lparr>columns = [''case_id'', ''activity'', ''timestamp''],
      rows = [[CInt 7, CStr ''a'', CTime 2000000000]]\<rparr>"
proof -
  let ?r = "\<lparr>result_fields = Some three_fields,
             result_rows = Some [[CInt 7, CStr ''a'', CInt 2000000000]]\<rparr>"
  let ?names = "[''case_id'', ''activity'', ''timestamp'']"
  let ?rs = "[[CInt 7, CStr ''a'', CInt 2000000000]]"
  have q0: "execute_query (QueryReply 500 None) = PyNone"
    by (simp add: execute_query_def)
  have q1: "execute_query query_ok_reply = PyDict ?r"
    by (simp add: execute_query_def query_ok_reply_def)
  have fn: "field_names three_fields = Inr ?names"
    by (simp add: three_fields_def bind_def)
  have td: "to_datetime_ns [CInt 2000000000] = Some [Some 2000000000]"
    by simp
  have e0: "collect_process_events to_datetime_ns (QueryReply 500 None) = DataFrame_empty"
    using collect_process_events_result [of "QueryReply 500 None" to_datetime_ns, THEN conjunct1] q0
    by blast
  have pre: "execute_query query_ok_reply = PyDict ?r \<and> result_rows ?r = Some ?rs \<and>
    field_names (case result_fields ?r of None \<Rightarrow> [] | Some fs \<Rightarrow> fs) = Inr ?names \<and>
    list_all (\<lambda>row. length row = length ?names) ?rs \<and> distinct ?names \<and> ''case_id'' \<in> set ?names"
    using q1 fn by simp
  have pre2: "''timestamp'' \<in> set ?names \<and>
       to_datetime_ns (col_values \<lparr>columns = ?names, rows = ?rs\<rparr> ''timestamp'') = Some [Some 2000000000] \<and>
       length [Some (2000000000::int)] = length ?rs"
    by (simp add: col_values_def get_column_def)
  note t = collect_process_events_result [of query_ok_reply to_datetime_ns ?r ?rs ?names "[Some 2000000000]",
      THEN conjunct2, THEN conjunct1, THEN mp, OF pre, THEN conjunct2, THEN conjunct1, THEN mp, OF pre2,
      THEN conjunct1]
  have e1: "collect_process_events to_datetime_ns query_ok_reply =
     \<lparr>columns = ?names, rows = [[CInt 7, CStr ''a'', CTime 2000000000]]\<rparr>"
    unfolding t by (simp add: set_column_def)
  show ?thesis by (intro conjI q0 e0 q1 fn td e1)
qed

text \<open>
  Claim C5 as stated fails on a successful query whose row has one more cell than there
  are fields: the constructor of the frame raises, and the result is the empty frame, with
  neither the field names as columns nor the row.
\<close>

theorem collect_process_events_frame_counterexample:
  "execute_query query_wide_row_reply =
     PyDict \<lparr>result_fields = Some three_fields,
             result_rows = Some [[CInt 7, CStr ''a'', CInt 2000000000, CStr ''r'']]\<rparr> \<and>
   field_names three_fields = Inr [''case_id'', ''activity'', ''timestamp''] \<and>
   collect_process_events to_datetime_ns query_wide_row_reply = DataFrame_empty \<and>
   columns DataFrame_empty = [] \<and> rows DataFrame_empty = []"
  by (simp add: execute_query_def query_wide_row_reply_def three_fields_def bind_def
        collect_process_events_def collect_steps_def DataFrame_def row_width_def DataFrame_empty_def)

section \<open>Properties of generate\_sankhya\_suggestions\<close>

lemma count_list_filter: "P v \<Longrightarrow> count_list (filter P xs) v = count_list xs v"
  by (induction xs) auto

lemma set_value_counts:
  "set (value_counts xs) = {(v, count_list xs v) | v. v \<in> set xs \<and> \<not> is_null v}"
proof -
  let ?vs = "filter (\<lambda>x. \<not> is_null x) xs"
  have "set (value_counts xs) = (\<lambda>v. (v, count_list ?vs v)) ` set ?vs"
    by (simp add: value_counts_def Let_def)
  also have "\<dots> = {(v, count_list xs v) | v. v \<in> set xs \<and> \<not> is_null v}"
    by (auto simp: count_list_filter [of "\<lambda>x. \<not> is_null x"] image_iff)
  finally show ?thesis .
qed

lemma half_rows: "(of_nat l * (5 / 10 :: rat) < of_nat n) = (l < 2 * n)"
proof -
  have "(of_nat l * (5 / 10 :: rat) < of_nat n) = ((of_nat l :: rat) < of_nat (2 * n))"
    by (simp add: field_simps)
  then show ?thesis by (simp only: of_nat_less_iff)
qed

lemma frequent_activity_shape:
  assumes "x \<in> set (frequent_activity df)"
  shows "\<exists>a n. x = MostFrequent a n"
proof (cases "value_counts (col_values df ''concept:name'')")
  case Nil
  have "frequent_activity df = []" unfolding frequent_activity_def Nil by simp
  then show ?thesis using assms by simp
next
  case (Cons p rest)
  obtain a n where p: "p = (a, n)" by (cases p)
  have "frequent_activity df = [] \<or> frequent_activity df = [MostFrequent a n]"
    unfolding frequent_activity_def Cons p by simp
  then show ?thesis using assms by auto
qed

lemma resource_suggestion_shape:
  assumes "x \<in> set (resource_suggestion df)"
  shows "\<exists>a n. x = BusiestResource a n"
proof (cases "value_counts (col_values df ''org:resource'')")
  case Nil
  have "resource_suggestion df = []" unfolding resource_suggestion_def Nil by simp
  then show ?thesis using assms by simp
next
  case (Cons p rest)
  obtain a n where p: "p = (a, n)" by (cases p)
  have "resource_suggestion df = [] \<or> resource_suggestion df = [BusiestResource a n]"
    unfolding resource_suggestion_def Cons p by simp
  then show ?thesis using assms by auto
qed

lemma peak_suggestion_shape:
  "peak_suggestion to_datetime df = Inr p \<Longrightarrow> x \<in> set p \<Longrightarrow> \<exists>h. x = PeakHour h"
  by (auto simp: peak_suggestion_def bind_def split: if_splits option.splits sum.splits)

lemma category_suggestions_mem:
  "x \<in> set (category_suggestions df) \<longleftrightarrow>
     ''process_category'' \<in> set (columns df) \<and>
     (\<exists>c. \<not> is_null c \<and> c \<in> set (col_values df ''process_category'') \<and>
          length (rows df) < 2 * count_list (col_values df ''process_category'') c \<and>
          x = CategoryFocus c (of_nat (count_list (col_values df ''process_category'') c) /
                               of_nat (length (rows df))))"
  by (auto simp: category_suggestions_def set_value_counts half_rows split: if_splits)

lemma category_suggestions_iff:
  "(\<exists>p. CategoryFocus c p \<in> set (category_suggestions df)) \<longleftrightarrow>
     ''process_category'' \<in> set (columns df) \<and> \<not> is_null c \<and>
     length (rows df) < 2 * count_list (col_values df ''process_category'') c"
proof -
  have pos: "length (rows df) < 2 * count_list (col_values df ''process_category'') c \<Longrightarrow>
      c \<in> set (col_values df ''process_category'')"
    by (cases "c \<in> set (col_values df ''process_category'')") (auto simp: count_list_0_iff)
  show ?thesis unfolding category_suggestions_mem using pos by auto
qed

lemma delay_suggestion_iff:
  assumes "delay_suggestion df = Inr d"
  shows "(\<forall>x\<in>set d. \<exists>h. x = Delay h) \<and>
         ((\<exists>h. Delay h \<in> set d) \<longleftrightarrow>
            ''duration_seconds'' \<in> set (columns df) \<and>
            (\<exists>m. column_mean (col_values df ''duration_seconds'') = Inr (Some m) \<and> 3600 < m))"
proof (cases "''duration_seconds'' \<in> set (columns df)")
  case False
  then show ?thesis using assms by (auto simp: delay_suggestion_def)
next
  case True
  then obtain m where m: "column_mean (col_values df ''duration_seconds'') = Inr m"
    using assms by (cases "column_mean (col_values df ''duration_seconds'')")
      (auto simp: delay_suggestion_def bind_def)
  show ?thesis
  proof (cases m)
    case None
    then show ?thesis using assms True m by (auto simp: delay_suggestion_def bind_def)
  next
    case (Some avg)
    then have d: "d = (if 3600 < avg then [Delay (avg / 3600)] else [])"
      using assms True m by (auto simp: delay_suggestion_def bind_def)
    show ?thesis
    proof (cases "3600 < avg")
      case True
      have dd: "set d = {Delay (avg / 3600)}" unfolding d using True by simp
      have "\<exists>h. Delay h \<in> set d" unfolding dd by blast
      moreover have "\<forall>x\<in>set d. \<exists>h. x = Delay h" unfolding dd by blast
      ultimately show ?thesis using \<open>''duration_seconds'' \<in> set (columns df)\<close> m Some True by blast
    next
      case False
      then have "d = []" using d by simp
      then show ?thesis using m Some False by simp
    qed
  qed
qed

lemma conformance_suggestion_iff:
  assumes "conformance_suggestion aligned_traces = Inr c"
  shows "(\<forall>x\<in>set c. (\<exists>f. x = LowConformance f) \<or> (\<exists>f. x = HighConformance f)) \<and>
         ((\<exists>f. LowConformance f \<in> set c) \<longleftrightarrow>
            (\<exists>fs. aligned_traces = map Some fs \<and> fs \<noteq> [] \<and>
                  sum_list fs / of_nat (length fs) < 8 / 10)) \<and>
         ((\<exists>f. HighConformance f \<in> set c) \<longleftrightarrow>
            (\<exists>fs. aligned_traces = map Some fs \<and> fs \<noteq> [] \<and>
                  95 / 100 < sum_list fs / of_nat (length fs)))"
proof (cases "aligned_traces = []")
  case True
  then show ?thesis using assms by (auto simp: conformance_suggestion_def)
next
  case False
  then obtain gs where g: "fitness_values aligned_traces = Inr gs"
    using assms by (cases "fitness_values aligned_traces") (auto simp: conformance_suggestion_def bind_def)
  then have e: "aligned_traces = map Some gs" using fitness_values_Inr by simp
  then have u: "\<And>fs. aligned_traces = map Some fs \<longleftrightarrow> fs = gs"
    by (auto simp: inj_map_eq_map)
  have ne: "gs \<noteq> []" using False e by auto
  define avg where "avg = sum_list gs / of_nat (length gs)"
  have "conformance_suggestion aligned_traces =
      Inr (if avg < 8 / 10 then [LowConformance avg]
           else if 95 / 100 < avg then [HighConformance avg] else [])"
    unfolding conformance_suggestion_def g bind_def avg_def Let_def
    using False by (simp only: if_True sum.case simp_thms)
  then have c: "c = (if avg < 8 / 10 then [LowConformance avg]
                else if 95 / 100 < avg then [HighConformance avg] else [])"
    using assms by (simp only: sum.inject)
  have low: "(\<exists>f. LowConformance f \<in> set c) \<longleftrightarrow> avg < 8 / 10"
    unfolding c by auto
  have high: "(\<exists>f. HighConformance f \<in> set c) \<longleftrightarrow> 95 / 100 < avg"
    unfolding c by auto
  have shape: "\<forall>x\<in>set c. (\<exists>f. x = LowConformance f) \<or> (\<exists>f. x = HighConformance f)"
    unfolding c by auto
  show ?thesis unfolding u using ne low high shape by (simp add: avg_def)
qed

text \<open>
  Claim C7, as amended. \<open>generate_sankhya_suggestions\<close> never returns an empty list.
  For an empty frame it returns the single no-data message. When one of the analyses
  raises, it returns a single error message. Otherwise the list holds a delay suggestion
  exactly when the mean of \<open>duration_seconds\<close> exceeds 3600, a low-conformance
  suggestion exactly when the average fitness of the aligned traces is below 0.8, a
  high-conformance one exactly when it is above 0.95, and a category-focus suggestion
  for exactly the categories that cover more than half of the rows; and when no analysis
  contributes anything, the result is the three default suggestions.
\<close>

theorem generate_sankhya_suggestions_result:
  "generate_sankhya_suggestions to_datetime df aligned_traces \<noteq> [] \<and>
   (df_empty df \<longrightarrow> generate_sankhya_suggestions to_datetime df aligned_traces = [NoData]) \<and>
   (\<not> df_empty df \<and> suggestion_steps to_datetime df aligned_traces = Inl e \<longrightarrow>
      generate_sankhya_suggestions to_datetime df aligned_traces = [GenerationError]) \<and>
   (\<not> df_empty df \<and> suggestion_steps to_datetime df aligned_traces = Inr s \<longrightarrow>
      generate_sankhya_suggestions to_datetime df aligned_traces =
        (if s = [] then default_suggestions else s) \<and>
      ((\<exists>h. Delay h \<in> set s) \<longleftrightarrow>
         ''duration_seconds'' \<in> set (columns df) \<and>
         (\<exists>m. column_mean (col_values df ''duration_seconds'') = Inr (Some m) \<and> 3600 < m)) \<and>
      ((\<exists>f. LowConformance f \<in> set s) \<longleftrightarrow>
         (\<exists>fs. aligned_traces = map Some fs \<and> fs \<noteq> [] \<and>
               sum_list fs / of_nat (length fs) < 8 / 10)) \<and>
      ((\<exists>f. HighConformance f \<in> set s) \<longleftrightarrow>
         (\<exists>fs. aligned_traces = map Some fs \<and> fs \<noteq> [] \<and>
               95 / 100 < sum_list fs / of_nat (length fs))) \<and>
      (\<forall>c. (\<exists>p. CategoryFocus c p \<in> set s) \<longleftrightarrow>
         ''process_category'' \<in> set (columns df) \<and> \<not> is_null c \<and>
         length (rows df) < 2 * count_list (col_values df ''process_category'') c))"
proof (intro conjI impI)
  show "generate_sankhya_suggestions to_datetime df aligned_traces \<noteq> []"
    by (simp add: generate_sankhya_suggestions_def default_suggestions_def split: sum.splits)
next
  assume "df_empty df"
  then show "generate_sankhya_suggestions to_datetime df aligned_traces = [NoData]"
    by (simp add: generate_sankhya_suggestions_def)
next
  assume "\<not> df_empty df \<and> suggestion_steps to_datetime df aligned_traces = Inl e"
  then show "generate_sankhya_suggestions to_datetime df aligned_traces = [GenerationError]"
    by (simp add: generate_sankhya_suggestions_def)
next
  assume a: "\<not> df_empty df \<and> suggestion_steps to_datetime df aligned_traces = Inr s"
  then show "generate_sankhya_suggestions to_datetime df aligned_traces =
        (if s = [] then default_suggestions else s)"
    by (simp add: generate_sankhya_suggestions_def)
  from a obtain d c p where
    d: "delay_suggestion df = Inr d" and
    c: "conformance_suggestion aligned_traces = Inr c" and
    p: "peak_suggestion to_datetime df = Inr p" and
    s: "s = frequent_activity df @ d @ c @ category_suggestions df @ resource_suggestion df @ p"
    by (auto simp: suggestion_steps_def bind_def split: sum.splits)
  have fa: "\<And>x. x \<in> set (frequent_activity df) \<Longrightarrow> kind x = 1"
    using frequent_activity_shape [of _ df] by fastforce
  have rs: "\<And>x. x \<in> set (resource_suggestion df) \<Longrightarrow> kind x = 5"
    using resource_suggestion_shape [of _ df] by fastforce
  have pk: "\<And>x. x \<in> set p \<Longrightarrow> kind x = 6"
    using peak_suggestion_shape [OF p] by fastforce
  note dl = delay_suggestion_iff [OF d]
  note cf = conformance_suggestion_iff [OF c]
  have dk: "\<And>x. x \<in> set d \<Longrightarrow> kind x = 2" using dl by fastforce
  have ck: "\<And>x. x \<in> set c \<Longrightarrow> kind x = 3" using cf by fastforce
  have cat: "\<And>x. x \<in> set (category_suggestions df) \<Longrightarrow> kind x = 4"
    unfolding category_suggestions_mem by fastforce
  have mem: "\<And>x. x \<in> set s \<longleftrightarrow>
      (kind x = 1 \<and> x \<in> set (frequent_activity df)) \<or> (kind x = 2 \<and> x \<in> set d) \<or>
      (kind x = 3 \<and> x \<in> set c) \<or> (kind x = 4 \<and> x \<in> set (category_suggestions df)) \<or>
      (kind x = 5 \<and> x \<in> set (resource_suggestion df)) \<or> (kind x = 6 \<and> x \<in> set p)"
    unfolding s using fa rs pk dk ck cat by auto
  have "\<And>h. Delay h \<in> set s \<longleftrightarrow> Delay h \<in> set d" unfolding mem by simp
  then show "(\<exists>h. Delay h \<in> set s) \<longleftrightarrow>
         ''duration_seconds'' \<in> set (columns df) \<and>
         (\<exists>m. column_mean (col_values df ''duration_seconds'') = Inr (Some m) \<and> 3600 < m)"
    using dl by simp
  have "\<And>f. LowConformance f \<in> set s \<longleftrightarrow> LowConformance f \<in> set c" unfolding mem by simp
  then show "(\<exists>f. LowConformance f \<in> set s) \<longleftrightarrow>
         (\<exists>fs. aligned_traces = map Some fs \<and> fs \<noteq> [] \<and>
               sum_list fs / of_nat (length fs) < 8 / 10)"
    using cf by simp
  have "\<And>f. HighConformance f \<in> set s \<longleftrightarrow> HighConformance f \<in> set c" unfolding mem by simp
  then show "(\<exists>f. HighConformance f \<in> set s) \<longleftrightarrow>
         (\<exists>fs. aligned_traces = map Some fs \<and> fs \<noteq> [] \<and>
               95 / 100 < sum_list fs / of_nat (length fs))"
    using cf by simp
  have "\<And>k q. CategoryFocus k q \<in> set s \<longleftrightarrow> CategoryFocus k q \<in> set (category_suggestions df)"
    unfolding mem by simp
  then show "\<forall>c. (\<exists>p. CategoryFocus c p \<in> set s) \<longleftrightarrow>
         ''process_category'' \<in> set (columns df) \<and> \<not> is_null c \<and>
         length (rows df) < 2 * count_list (col_values df ''process_category'') c"
    using category_suggestions_iff [of _ df] by simp
qed

lemma example_events_steps:
  "suggestion_steps to_datetime_ns example_events [Some 1, Some (1 / 2)] =
     Inr [MostFrequent (CStr ''a'') 2, Delay (8999 / 7200), LowConformance (3 / 4),
          CategoryFocus (CStr ''sales'') (3 / 4), BusiestResource (CStr ''r'') 3, PeakHour 0]"
  by code_simp

text \<open>
  The empty frame, the example events with two aligned traces, and a frame without any
  column the analyses look at.
\<close>

theorem generate_sankhya_suggestions_result_witness:
  "df_empty DataFrame_empty \<and>
   generate_sankhya_suggestions to_datetime_ns DataFrame_empty [] = [NoData] \<and>
   \<not> df_empty example_events \<and>
   column_mean (col_values example_events ''duration_seconds'') = Inr (Some (8999 / 2)) \<and>
   generate_sankhya_suggestions to_datetime_ns example_events [Some 1, Some (1 / 2)] =
     [MostFrequent (CStr ''a'') 2, Delay (8999 / 7200), LowConformance (3 / 4),
      CategoryFocus (CStr ''sales'') (3 / 4), BusiestResource (CStr ''r'') 3, PeakHour 0] \<and>
   \<not> df_empty plain_frame \<and>
   suggestion_steps to_datetime_ns plain_frame [] = Inr [] \<and>
   generate_sankhya_suggestions to_datetime_ns plain_frame [] = default_suggestions"
proof -
  let ?s = "[MostFrequent (CStr ''a'') 2, Delay (8999 / 7200), LowConformance (3 / 4),
      CategoryFocus (CStr ''sales'') (3 / 4), BusiestResource (CStr ''r'') 3, PeakHour 0]"
  have e0: "df_empty DataFrame_empty" by (simp add: df_empty_def DataFrame_empty_def)
  have e1: "\<not> df_empty example_events" by (simp add: df_empty_def example_events_def)
  have e2: "\<not> df_empty plain_frame" by (simp add: df_empty_def plain_frame_def)
  have m: "column_mean (col_values example_events ''duration_seconds'') = Inr (Some (8999 / 2))"
    by code_simp
  have p: "suggestion_steps to_datetime_ns plain_frame [] = Inr []" by code_simp
  note t = generate_sankhya_suggestions_result
  have g0: "generate_sankhya_suggestions to_datetime_ns DataFrame_empty [] = [NoData]"
    by (rule mp [OF t [THEN conjunct2, THEN conjunct1] e0])
  have "generate_sankhya_suggestions to_datetime_ns example_events [Some 1, Some (1 / 2)] =
      (if ?s = [] then default_suggestions else ?s)"
    by (rule mp [OF t [THEN conjunct2, THEN conjunct2, THEN conjunct2], THEN conjunct1])
       (rule conjI [OF e1 example_events_steps])
  then have g1: "generate_sankhya_suggestions to_datetime_ns example_events [Some 1, Some (1 / 2)] = ?s"
    by simp
  have "generate_sankhya_suggestions to_datetime_ns plain_frame [] =
      (if ([]::suggestion list) = [] then default_suggestions else [])"
    by (rule mp [OF t [THEN conjunct2, THEN conjunct2, THEN conjunct2], THEN conjunct1])
       (rule conjI [OF e2 p])
  then have g2: "generate_sankhya_suggestions to_datetime_ns plain_frame [] = default_suggestions"
    by simp
  show ?thesis by (intro conjI e0 g0 e1 m g1 e2 p g2)
qed

text \<open>
  Claim C7 as stated fails on a frame whose durations average 7200 seconds and whose
  only timestamp is \<open>NaT\<close>: no hour can be counted, \<open>idxmax\<close> raises, and the result
  is the error message alone, without the delay suggestion.
\<close>

theorem generate_sankhya_suggestions_delay_counterexample:
  "\<not> df_empty undated_events \<and>
   column_mean (col_values undated_events ''duration_seconds'') = Inr (Some 7200) \<and>
   to_datetime_ns (col_values undated_events ''time:timestamp'') = Some [None] \<and>
   generate_sankhya_suggestions to_datetime_ns undated_events [] = [GenerationError]"
proof -
  have a: "\<not> df_empty undated_events" by (simp add: df_empty_def undated_events_def)
  have b: "column_mean (col_values undated_events ''duration_seconds'') = Inr (Some 7200)"
    by code_simp
  have c: "to_datetime_ns (col_values undated_events ''time:timestamp'') = Some [None]"
    by code_simp
  have d: "generate_sankhya_suggestions to_datetime_ns undated_events [] = [GenerationError]"
    by code_simp
  show ?thesis by (intro conjI a b c d)
qed

end
